theory Spec2Isabelle
  imports Main "HOL-Library.Word"
begin

section \<open>JavaScript strings\<close>

text \<open>
  A JavaScript string is a sequence of UTF-16 code units: \<^verbatim>\<open>length\<close> counts code
  units and \<^verbatim>\<open>substring\<close> cuts between them. A literal of the source is written
  \<open>js ''...''\<close>.
\<close>

type_synonym jschar = "16 word"
type_synonym jsstring = "jschar list"

definition js :: "string \<Rightarrow> jsstring" where
  "js s = map (\<lambda>c. of_char c) s"

text \<open>\<^verbatim>\<open>s.substring(0, n)\<close>: the first \<open>n\<close> code units, all of \<open>s\<close> when it is shorter.\<close>

definition substring0 :: "jsstring \<Rightarrow> nat \<Rightarrow> jsstring" where
  "substring0 s n = take n s"

text \<open>
  The class \<^verbatim>\<open>\s\<close> of a JavaScript regular expression, which is also what
  \<^verbatim>\<open>trim\<close> strips: the WhiteSpace and LineTerminator code points of ECMA-262.
\<close>

definition is_ws :: "jschar \<Rightarrow> bool" where
  "is_ws c \<longleftrightarrow>
     c = 9 \<or> c = 10 \<or> c = 11 \<or> c = 12 \<or> c = 13 \<or> c = 32 \<or> c = 160 \<or> c = 5760 \<or>
     (8192 \<le> c \<and> c \<le> 8202) \<or> c = 8232 \<or> c = 8233 \<or> c = 8239 \<or> c = 8287 \<or>
     c = 12288 \<or> c = 65279"

section \<open>String operations of the platform, as the source uses them\<close>

definition space :: jsstring where
  "space = [32]"

text \<open>The separator \<^verbatim>\<open>'\n\n'\<close> appended after every page.\<close>

definition blank_line :: jsstring where
  "blank_line = [10, 10]"

text \<open>\<^verbatim>\<open>items.join(sep)\<close>.\<close>

fun join :: "jsstring \<Rightarrow> jsstring list \<Rightarrow> jsstring" where
  "join sep [] = []"
| "join sep [x] = x"
| "join sep (x # y # ys) = x @ sep @ join sep (y # ys)"

text \<open>
  \<^verbatim>\<open>text.split(/\s+/)\<close>: the pieces between maximal runs of white space. \<open>cur\<close> is
  the piece being read and \<open>insep\<close> says that the scan is inside a run. A string that
  starts or ends with white space gets an empty first or last piece, and the empty string
  splits into one empty piece.
\<close>

fun split_ws :: "jsstring \<Rightarrow> jsstring \<Rightarrow> bool \<Rightarrow> jsstring list" where
  "split_ws [] cur insep = [cur]"
| "split_ws (c # cs) cur insep =
     (if is_ws c then (if insep then split_ws cs cur True else cur # split_ws cs [] True)
      else split_ws cs (cur @ [c]) False)"

text \<open>\<^verbatim>\<open>text.split(/\s+/).filter(word => word.length > 0).length\<close>\<close>

definition countWords :: "jsstring \<Rightarrow> nat" where
  "countWords text = length (filter (\<lambda>word. length word > 0) (split_ws text [] False))"

text \<open>\<^verbatim>\<open>s.split('/')\<close>, for a one-character separator.\<close>

fun split_char :: "jschar \<Rightarrow> jsstring \<Rightarrow> jsstring list" where
  "split_char sep [] = [[]]"
| "split_char sep (c # cs) =
     (if c = sep then [] # split_char sep cs
      else (case split_char sep cs of [] \<Rightarrow> [[c]] | p # ps \<Rightarrow> (c # p) # ps))"

text \<open>\<^verbatim>\<open>xs.pop() || ''\<close>: the last element, the empty string when there is none.\<close>

definition pop_or_empty :: "jsstring list \<Rightarrow> jsstring" where
  "pop_or_empty xs = (case xs of [] \<Rightarrow> [] | _ # _ \<Rightarrow> last xs)"

text \<open>
  \<^verbatim>\<open>s.replace(pat, rep)\<close> with a string pattern: only the first occurrence of
  \<open>pat\<close> is replaced (\<open>rep\<close> has no \<^verbatim>\<open>$\<close> pattern in the source).
\<close>

fun replace_first :: "jsstring \<Rightarrow> jsstring \<Rightarrow> jsstring \<Rightarrow> jsstring" where
  "replace_first pat rep [] = (if pat = [] then rep else [])"
| "replace_first pat rep (c # cs) =
     (if take (length pat) (c # cs) = pat then rep @ drop (length pat) (c # cs)
      else c # replace_first pat rep cs)"

text \<open>\<^verbatim>\<open>s.replace(/\s+/g, ' ')\<close>: every maximal run of white space becomes one space.\<close>

fun collapse_ws :: "jsstring \<Rightarrow> bool \<Rightarrow> jsstring" where
  "collapse_ws [] insep = []"
| "collapse_ws (c # cs) insep =
     (if is_ws c then (if insep then collapse_ws cs True else 32 # collapse_ws cs True)
      else c # collapse_ws cs False)"

definition trim :: "jsstring \<Rightarrow> jsstring" where
  "trim s = rev (dropWhile is_ws (rev (dropWhile is_ws s)))"

text \<open>\<^verbatim>\<open>s.startsWith(p)\<close> and \<^verbatim>\<open>s.includes(p)\<close>.\<close>

definition startsWith :: "jsstring \<Rightarrow> jsstring \<Rightarrow> bool" where
  "startsWith s p \<longleftrightarrow> take (length p) s = p"

fun includes_str :: "jsstring \<Rightarrow> jsstring \<Rightarrow> bool" where
  "includes_str [] p \<longleftrightarrow> p = []"
| "includes_str (c # cs) p \<longleftrightarrow> startsWith (c # cs) p \<or> includes_str cs p"

text \<open>A number in a template literal: the decimal digits of a natural number.\<close>

function digits :: "nat \<Rightarrow> jsstring" where
  "digits n = (if n < 10 then [48 + of_nat n] else digits (n div 10) @ [48 + of_nat (n mod 10)])"
  by pat_completeness auto
termination
  by (relation "measure (\<lambda>n. n)") auto

declare digits.simps [simp del]

section \<open>The record every context exchanges\<close>

text \<open>\<^verbatim>\<open>interface PDFContent\<close> (the optional \<^verbatim>\<open>fileSize\<close> is never written).\<close>

record PDFContent =
  title :: jsstring
  url :: jsstring
  textContent :: jsstring
  wordCount :: nat
  pageCount :: nat

section \<open>background.ts: the message listener\<close>

record message =
  action :: jsstring
  data :: "PDFContent option"
  msg_url :: "jsstring option"
  origin :: "jsstring option"

datatype response =
    Success
  | SuccessData PDFContent
  | Failure jsstring

text \<open>
  What one run of the listener does besides updating \<^verbatim>\<open>currentPDFContent\<close>: a call
  of \<^verbatim>\<open>sendResponse\<close>, a write to \<^verbatim>\<open>chrome.storage.local\<close> (by
  \<^verbatim>\<open>notifySidepanel\<close>), or the start of one of the asynchronous helpers, which answer
  later.
\<close>

datatype effect =
    SendResponse response
  | StorageSet PDFContent
  | ExtractPDFInBackground jsstring
  | ExtractPDFDirectly jsstring jsstring
  | ExtractContentFromActiveTab

record background =
  currentPDFContent :: "PDFContent option"

text \<open>
  The listener of the current background.ts (the file holds an earlier copy too, with the
  same \<^verbatim>\<open>contentReady\<close> case). It returns the new state, the effects in the order
  they happen, and the boolean it returns to the platform (\<open>True\<close> keeps the channel
  open). An empty \<^verbatim>\<open>message.url\<close> is falsy, like a missing one; \<open>or_str u d\<close>
  is \<^verbatim>\<open>u || d\<close>.
\<close>

definition or_str :: "jsstring option \<Rightarrow> jsstring \<Rightarrow> jsstring" where
  "or_str u d = (case u of None \<Rightarrow> d | Some s \<Rightarrow> if s = [] then d else s)"

definition onMessage :: "background \<Rightarrow> message \<Rightarrow> background \<times> effect list \<times> bool" where
  "onMessage st m =
    (if action m = js ''extractPDFFromBackground'' then
       (case msg_url m of
          None \<Rightarrow> (st, [], False)
        | Some u \<Rightarrow>
            if u = [] then (st, [], False)
            else (st, [ExtractPDFInBackground u], True))
     else if action m = js ''extractPDFInViewer'' then
       (case msg_url m of
          None \<Rightarrow> (st, [], False)
        | Some u \<Rightarrow>
            if u = [] then (st, [], False)
            else (st, [ExtractPDFDirectly u (or_str (origin m) u)], True))
     else if action m = js ''contentReady'' then
       (case data m of
          Some d \<Rightarrow> (st\<lparr>currentPDFContent := Some d\<rparr>, [StorageSet d, SendResponse Success], False)
        | None \<Rightarrow> (st, [SendResponse Success], False))
     else if action m = js ''getPageContent'' then
       (case currentPDFContent st of
          Some c \<Rightarrow> (st, [SendResponse (SuccessData c)], False)
        | None \<Rightarrow> (st, [ExtractContentFromActiveTab], True))
     else if action m = js ''requestContent'' then
       (st, [ExtractContentFromActiveTab], True)
     else (st, [SendResponse (Failure (js ''Unknown action''))], False))"

section \<open>The platform and the parsing library\<close>

text \<open>A thrown value, with the message the handlers report.\<close>

datatype error = Error jsstring

text \<open>
  A loaded document of the parsing library: \<^verbatim>\<open>pdf.numPages\<close>, and for a page
  index what \<^verbatim>\<open>pdf.getPage(i)\<close> followed by \<^verbatim>\<open>page.getTextContent()\<close>
  gives: the \<^verbatim>\<open>str\<close> of every item in order, or a rejection.
\<close>

record pdf_document =
  numPages :: nat
  pageItems :: "nat \<Rightarrow> error + jsstring list"

text \<open>
  \<^verbatim>\<open>fetch(url)\<close> with \<^verbatim>\<open>response.arrayBuffer()\<close>: a rejection, or a response
  with its \<^verbatim>\<open>ok\<close> flag and its bytes.
\<close>

datatype fetch_result =
    FetchRejected error
  | Response bool "8 word list"

text \<open>
  What the source calls and does not define: \<^verbatim>\<open>new URL(url).pathname\<close> (\<open>None\<close>
  when the constructor throws), \<^verbatim>\<open>decodeURIComponent\<close> (\<open>None\<close> when it throws),
  \<^verbatim>\<open>fetch\<close>, and the library's \<^verbatim>\<open>getDocument\<close> on bytes and on an address.
\<close>

record platform =
  URL_pathname :: "jsstring \<Rightarrow> jsstring option"
  decodeURIComponent :: "jsstring \<Rightarrow> jsstring option"
  fetch :: "jsstring \<Rightarrow> fetch_result"
  getDocument :: "8 word list \<Rightarrow> error + pdf_document"
  getDocumentURL :: "jsstring \<Rightarrow> error + pdf_document"

section \<open>Title derivation\<close>

definition default_title :: jsstring where
  "default_title = js ''PDF Document''"

text \<open>
  \<^verbatim>\<open>extractTitleFromURL\<close> of the page-resident extractor: the \<^verbatim>\<open>try\<close> block
  reads the path, takes what follows the last slash, removes the first \<^verbatim>\<open>.pdf\<close>,
  decodes, and falls back to the default label when the title is empty; the
  \<^verbatim>\<open>catch\<close> returns the default label.
\<close>

definition extractTitleFromURL :: "platform \<Rightarrow> jsstring \<Rightarrow> jsstring" where
  "extractTitleFromURL P u =
     (case URL_pathname P u of
        None \<Rightarrow> default_title
      | Some urlPath \<Rightarrow>
          (let fileName = pop_or_empty (split_char 47 urlPath) in
           case decodeURIComponent P (replace_first (js ''.pdf'') [] fileName) of
             None \<Rightarrow> default_title
           | Some t \<Rightarrow> if t = [] then default_title else t))"

text \<open>
  \<^verbatim>\<open>extractTitleFromURL\<close> of offscreen.ts, and of the fallback extractor of
  content.ts, which has the same body: the decoded name is returned as it is.
\<close>

definition extractTitleFromURL_offscreen :: "platform \<Rightarrow> jsstring \<Rightarrow> jsstring" where
  "extractTitleFromURL_offscreen P u =
     (case URL_pathname P u of
        None \<Rightarrow> default_title
      | Some urlPath \<Rightarrow>
          (let fileName = pop_or_empty (split_char 47 urlPath) in
           case decodeURIComponent P (replace_first (js ''.pdf'') [] fileName) of
             None \<Rightarrow> default_title
           | Some t \<Rightarrow> t))"

section \<open>The library extraction path\<close>

text \<open>
  The page loop \<^verbatim>\<open>for (let i = 1; i <= pageCount; i++)\<close> of offscreen.ts and of
  \<^verbatim>\<open>extractUsingPDFJSWithArrayBuffer\<close>: each page is awaited before the next one is
  asked for, and a rejection leaves the loop and the function.
\<close>

function pagesLoop :: "pdf_document \<Rightarrow> nat \<Rightarrow> nat \<Rightarrow> jsstring \<Rightarrow> error + jsstring" where
  "pagesLoop pdf n i fullText =
     (if i \<le> n then
        (case pageItems pdf i of
           Inl e \<Rightarrow> Inl e
         | Inr items \<Rightarrow> pagesLoop pdf n (i + 1) (fullText @ join space items @ blank_line))
      else Inr fullText)"
  by pat_completeness auto
termination
  by (relation "measure (\<lambda>(pdf, n, i, fullText). Suc n - i)") auto

declare pagesLoop.simps [simp del]

text \<open>\<^verbatim>\<open>extractPDF\<close> of offscreen.ts.\<close>

definition extractPDF :: "platform \<Rightarrow> jsstring \<Rightarrow> error + PDFContent" where
  "extractPDF P u =
     (case fetch P u of
        FetchRejected e \<Rightarrow> Inl e
      | Response ok arrayBuffer \<Rightarrow>
          if \<not> ok then Inl (Error (js ''Failed to fetch PDF''))
          else
            (case getDocument P arrayBuffer of
               Inl e \<Rightarrow> Inl e
             | Inr pdf \<Rightarrow>
                 (case pagesLoop pdf (numPages pdf) 1 [] of
                    Inl e \<Rightarrow> Inl e
                  | Inr fullText \<Rightarrow>
                      Inr \<lparr>title = extractTitleFromURL_offscreen P u,
                           url = u,
                           textContent = substring0 fullText 50000,
                           wordCount = countWords fullText,
                           pageCount = numPages pdf\<rparr>)))"

text \<open>
  \<^verbatim>\<open>extractUsingPDFJSWithArrayBuffer\<close> of content.ts: the title is computed first,
  the rest is the same.
\<close>

definition extractUsingPDFJSWithArrayBuffer :: "platform \<Rightarrow> jsstring \<Rightarrow> error + PDFContent" where
  "extractUsingPDFJSWithArrayBuffer P u =
     (let t = extractTitleFromURL_offscreen P u in
      case fetch P u of
        FetchRejected e \<Rightarrow> Inl e
      | Response ok arrayBuffer \<Rightarrow>
          if \<not> ok then Inl (Error (js ''Failed to fetch PDF''))
          else
            (case getDocument P arrayBuffer of
               Inl e \<Rightarrow> Inl e
             | Inr pdf \<Rightarrow>
                 (case pagesLoop pdf (numPages pdf) 1 [] of
                    Inl e \<Rightarrow> Inl e
                  | Inr fullText \<Rightarrow>
                      Inr \<lparr>title = t,
                           url = u,
                           textContent = substring0 fullText 50000,
                           wordCount = countWords fullText,
                           pageCount = numPages pdf\<rparr>)))"

section \<open>The DOM-scraping path\<close>

text \<open>
  What the page-resident extractor reads from the document at the moment it extracts.
  The five scraping methods only read the document, so each is recorded by what its call
  does there: it throws (\<open>Inl\<close>) or returns a string (\<open>Inr\<close>). The counts are the
  lengths of the \<^verbatim>\<open>querySelectorAll\<close> results, \<open>pageElementCount\<close> the one for
  \<^verbatim>\<open>'[data-page-number], .page'\<close>, and \<open>pageOfN\<close> is the number captured by
  \<^verbatim>\<open>/Page \d+ of (\d+)/i\<close> in the body text, \<open>None\<close> without a match.
\<close>

record dom =
  location_href :: jsstring
  readyState :: jsstring
  bodyTextContent :: "jsstring option"
  bodyInnerHTML :: jsstring
  embedFound :: bool
  viewerFound :: bool
  dataPageNumberCount :: nat
  pageClassCount :: nat
  textLayerCount :: nat
  pageElementCount :: nat
  pageOfN :: "nat option"
  textLayers_result :: "error + jsstring"
  pluginContent_result :: "error + jsstring"
  clipboard_result :: "error + jsstring"
  selectAll_result :: "error + jsstring"
  embedElement_result :: "error + jsstring"

text \<open>\<^verbatim>\<open>document.body.textContent || ''\<close>\<close>

definition bodyText :: "dom \<Rightarrow> jsstring" where
  "bodyText D = (case bodyTextContent D of None \<Rightarrow> [] | Some t \<Rightarrow> t)"

text \<open>The array \<^verbatim>\<open>extractionMethods\<close>, each method with what calling it does.\<close>

definition extractionMethods :: "dom \<Rightarrow> (jsstring \<times> (error + jsstring)) list" where
  "extractionMethods D =
     [(js ''extractFromTextLayers'', textLayers_result D),
      (js ''extractFromPDFPluginContent'', pluginContent_result D),
      (js ''extractUsingClipboard'', clipboard_result D),
      (js ''trySelectAllText'', selectAll_result D),
      (js ''extractFromEmbedElement'', embedElement_result D)]"

text \<open>
  The variables the loop over the methods writes, and the names of the methods it has
  called so far.
\<close>

record chain =
  chain_text :: jsstring
  successfulMethod :: jsstring
  invoked :: "jsstring list"

definition chain_init :: chain where
  "chain_init = \<lparr>chain_text = [], successfulMethod = [], invoked = []\<rparr>"

text \<open>
  \<^verbatim>\<open>for (const method of extractionMethods) { try { ... break ... } catch { } }\<close>:
  a method that throws is logged and the loop goes on; a result of more than 50 code
  units is kept and ends the loop.
\<close>

fun runMethods :: "(jsstring \<times> (error + jsstring)) list \<Rightarrow> chain \<Rightarrow> chain" where
  "runMethods [] c = c"
| "runMethods ((name, func) # rest) c =
     (let c1 = c\<lparr>invoked := invoked c @ [name]\<rparr> in
      case func of
        Inl e \<Rightarrow> runMethods rest c1
      | Inr result \<Rightarrow>
          if result \<noteq> [] \<and> length result > 50
          then c1\<lparr>chain_text := result, successfulMethod := name\<rparr>
          else runMethods rest c1)"

text \<open>\<^verbatim>\<open>estimatePageCount\<close>: the first indicator that is positive, else 1.\<close>

definition pageIndicators :: "dom \<Rightarrow> nat list" where
  "pageIndicators D =
     [dataPageNumberCount D, pageClassCount D, textLayerCount D,
      (case pageOfN D of None \<Rightarrow> 0 | Some n \<Rightarrow> n)]"

fun firstPositive :: "nat list \<Rightarrow> nat" where
  "firstPositive [] = 1"
| "firstPositive (count # rest) = (if count > 0 then count else firstPositive rest)"

definition estimatePageCount :: "dom \<Rightarrow> nat" where
  "estimatePageCount D = firstPositive (pageIndicators D)"

text \<open>\<^verbatim>\<open>generateExtractionReport\<close>: the template literal, line by line.\<close>

definition generateExtractionReport :: "dom \<Rightarrow> jsstring" where
  "generateExtractionReport D =
     js ''PDF Document Analysis:'' @ [10] @
     js ''- Embed element found: '' @ (if embedFound D then js ''Yes'' else js ''No'') @ [10] @
     js ''- Text layers detected: '' @ digits (textLayerCount D) @ [10] @
     js ''- Page elements found: '' @ digits (pageElementCount D) @ [10] @
     js ''- Document ready state: '' @ readyState D @ [10] @
     js ''- Body text length: '' @
       digits (case bodyTextContent D of None \<Rightarrow> 0 | Some t \<Rightarrow> length t) @ [10] @
     [10] @
     js ''This PDF might be:'' @ [10] @
     js ''1. A scanned document without text layer'' @ [10] @
     js ''2. Still loading in Chrome'' @ [39] @ js ''s PDF viewer'' @ [10] @
     js ''3. Protected or encrypted content'' @ [10] @
     [10] @
     js ''Try refreshing the page or opening a different PDF file.''"

text \<open>
  \<^verbatim>\<open>extractFromChromePDFViewer\<close>, from the method loop on (the wait for the viewer
  before it only delays the reads).
\<close>

definition extractFromChromePDFViewer :: "platform \<Rightarrow> dom \<Rightarrow> PDFContent" where
  "extractFromChromePDFViewer P D =
     (let c = runMethods (extractionMethods D) chain_init;
          pageCount = estimatePageCount D;
          textContent =
            (if chain_text c = [] \<or> length (chain_text c) < 20
             then generateExtractionReport D else chain_text c)
      in \<lparr>title = extractTitleFromURL P (location_href D),
          url = location_href D,
          textContent = substring0 textContent 10000,
          wordCount = countWords textContent,
          pageCount = (if pageCount = 0 then 1 else pageCount)\<rparr>)"

text \<open>\<^verbatim>\<open>extractFallbackText\<close> of the page-resident extractor.\<close>

definition extractFallbackText :: "platform \<Rightarrow> dom \<Rightarrow> PDFContent" where
  "extractFallbackText P D =
     (let cleanText = trim (collapse_ws (bodyText D) False) in
      \<lparr>title = extractTitleFromURL P (location_href D),
       url = location_href D,
       textContent =
         (if substring0 cleanText 1000 = []
          then js ''No text could be extracted from this PDF.''
          else substring0 cleanText 1000),
       wordCount = countWords cleanText,
       pageCount = 1\<rparr>)"

text \<open>The same function of the fallback extractor of content.ts, with its own title.\<close>

definition extractFallbackText_content :: "platform \<Rightarrow> dom \<Rightarrow> PDFContent" where
  "extractFallbackText_content P D =
     (let cleanText = trim (collapse_ws (bodyText D) False) in
      \<lparr>title = extractTitleFromURL_offscreen P (location_href D),
       url = location_href D,
       textContent =
         (if substring0 cleanText 1000 = []
          then js ''No text could be extracted from this PDF.''
          else substring0 cleanText 1000),
       wordCount = countWords cleanText,
       pageCount = 1\<rparr>)"

text \<open>
  The page loop of \<^verbatim>\<open>extractUsingPDFJS\<close> of the page-resident extractor: a page
  that fails is logged and skipped.
\<close>

function pagesLoopSkipping :: "pdf_document \<Rightarrow> nat \<Rightarrow> nat \<Rightarrow> jsstring \<Rightarrow> jsstring" where
  "pagesLoopSkipping pdf n i fullText =
     (if i \<le> n then
        (case pageItems pdf i of
           Inl e \<Rightarrow> pagesLoopSkipping pdf n (i + 1) fullText
         | Inr items \<Rightarrow>
             pagesLoopSkipping pdf n (i + 1) (fullText @ join space items @ blank_line))
      else fullText)"
  by pat_completeness auto
termination
  by (relation "measure (\<lambda>(pdf, n, i, fullText). Suc n - i)") auto

declare pagesLoopSkipping.simps [simp del]

text \<open>\<^verbatim>\<open>extractUsingPDFJS\<close> of the page-resident extractor (first 10 pages).\<close>

definition extractUsingPDFJS :: "platform \<Rightarrow> dom \<Rightarrow> jsstring \<Rightarrow> PDFContent" where
  "extractUsingPDFJS P D u =
     (case getDocumentURL P u of
        Inl e \<Rightarrow> extractFallbackText P D
      | Inr pdf \<Rightarrow>
          (let fullText = pagesLoopSkipping pdf (min (numPages pdf) 10) 1 [] in
           \<lparr>title = extractTitleFromURL P u,
            url = u,
            textContent = substring0 fullText 10000,
            wordCount = countWords fullText,
            pageCount = numPages pdf\<rparr>))"

text \<open>
  \<^verbatim>\<open>extractUsingPDFJS\<close> of the fallback extractor of content.ts: a page that fails
  ends in the \<^verbatim>\<open>catch\<close>, which returns the fallback text.
\<close>

definition extractUsingPDFJS_content :: "platform \<Rightarrow> dom \<Rightarrow> jsstring \<Rightarrow> PDFContent" where
  "extractUsingPDFJS_content P D u =
     (case getDocumentURL P u of
        Inl e \<Rightarrow> extractFallbackText_content P D
      | Inr pdf \<Rightarrow>
          (case pagesLoop pdf (min (numPages pdf) 10) 1 [] of
             Inl e \<Rightarrow> extractFallbackText_content P D
           | Inr fullText \<Rightarrow>
               \<lparr>title = extractTitleFromURL_offscreen P u,
                url = u,
                textContent = substring0 fullText 10000,
                wordCount = countWords fullText,
                pageCount = numPages pdf\<rparr>))"

text \<open>
  \<^verbatim>\<open>isChromePDFViewer\<close> and \<^verbatim>\<open>extractPDFContent\<close> of the page-resident
  extractor (\<^verbatim>\<open>this.pdfjsLib\<close> is the imported module, assigned in the constructor).
\<close>

definition isChromePDFViewer :: "dom \<Rightarrow> bool" where
  "isChromePDFViewer D \<longleftrightarrow>
     embedFound D \<or> viewerFound D \<or>
     includes_str (location_href D) (js ''chrome-extension://'') \<or>
     includes_str (bodyInnerHTML D) (js ''pdf'')"

definition extractPDFContent :: "platform \<Rightarrow> dom \<Rightarrow> PDFContent" where
  "extractPDFContent P D =
     (let u = location_href D in
      if startsWith u (js ''file://'') then extractFromChromePDFViewer P D
      else if isChromePDFViewer D then extractFromChromePDFViewer P D
      else if startsWith u (js ''http://'') \<or> startsWith u (js ''https://'')
      then extractUsingPDFJS P D u
      else extractFallbackText P D)"

text \<open>
  \<^verbatim>\<open>extractPDFContent\<close> of the fallback extractor of content.ts: the byte-fetching
  variant first, then the address variant, then the fallback text.
\<close>

definition extractPDFContent_content :: "platform \<Rightarrow> dom \<Rightarrow> PDFContent" where
  "extractPDFContent_content P D =
     (let u = location_href D in
      case extractUsingPDFJSWithArrayBuffer P u of
        Inr content \<Rightarrow> content
      | Inl e \<Rightarrow>
          if startsWith u (js ''http://'') \<or> startsWith u (js ''https://'')
          then extractUsingPDFJS_content P D u
          else extractFallbackText_content P D)"

text \<open>The record \<^verbatim>\<open>extractBeforeInjection\<close> of content.ts keeps when the request fails.\<close>

definition failedExtraction :: "jsstring \<Rightarrow> PDFContent" where
  "failedExtraction u =
     \<lparr>title = js ''PDF Document'', url = u,
      textContent = js ''Failed to extract text from PDF'',
      wordCount = 0, pageCount = 1\<rparr>"

section \<open>Auto-extraction with retries\<close>

text \<open>
  What a run of \<^verbatim>\<open>attemptAutoExtraction\<close> does, in order: it arms a timer with a
  delay in milliseconds, it passes a \<^verbatim>\<open>contentReady\<close> message with a record to
  \<^verbatim>\<open>safelySendMessage\<close> (with what that resolves to), and it logs that every retry
  is used up.
\<close>

datatype auto_event =
    Timer nat
  | Sent PDFContent bool
  | LoggedFailure

text \<open>The record of the last \<^verbatim>\<open>catch\<close>.\<close>

definition failedAutoExtraction :: "jsstring \<Rightarrow> PDFContent" where
  "failedAutoExtraction u =
     \<lparr>title = js ''PDF Document'', url = u,
      textContent = js ''Failed to extract PDF content automatically.'',
      wordCount = 0, pageCount = 0\<rparr>"

definition maxRetries :: nat where
  "maxRetries = 3"

definition delay :: "nat \<Rightarrow> nat" where
  "delay retryCount = min (2000 * 2 ^ retryCount) 10000"

text \<open>
  \<open>extraction k\<close> is what \<^verbatim>\<open>pdfExtractor.extractPDFContent()\<close> does in the attempt
  with \<^verbatim>\<open>retryCount = k\<close> (it rejects, or resolves to a record) and \<open>channel k\<close> is
  what \<^verbatim>\<open>safelySendMessage\<close> resolves to in that attempt; \<open>href\<close> is the address
  of the page.
\<close>

function attemptAutoExtraction ::
  "(nat \<Rightarrow> error + PDFContent) \<Rightarrow> (nat \<Rightarrow> bool) \<Rightarrow> jsstring \<Rightarrow> nat \<Rightarrow> auto_event list" where
  "attemptAutoExtraction extraction channel href retryCount =
     Timer (delay retryCount) #
     (case extraction retryCount of
        Inr content \<Rightarrow>
          (let success = channel retryCount in
           Sent content success #
           (if \<not> success \<and> retryCount < maxRetries
            then attemptAutoExtraction extraction channel href (retryCount + 1)
            else if \<not> success then [LoggedFailure]
            else []))
      | Inl e \<Rightarrow>
          (if retryCount < maxRetries
           then attemptAutoExtraction extraction channel href (retryCount + 1)
           else [Sent (failedAutoExtraction href) (channel retryCount)]))"
  by pat_completeness auto
termination
  by (relation "measure (\<lambda>(extraction, channel, href, retryCount). maxRetries - retryCount)")
     auto

declare attemptAutoExtraction.simps [simp del]

section \<open>background.ts: the offscreen document\<close>

text \<open>
  \<^verbatim>\<open>setupOffscreenDocument\<close> runs on one thread: a call runs without interruption up
  to its \<^verbatim>\<open>await\<close>, and goes on after the promise it waits for is settled. The state
  holds the two module variables, the number of \<^verbatim>\<open>chrome.offscreen.createDocument\<close>
  calls issued so far, the promises whose platform call is still running, the promises
  that are settled, and for every call of \<^verbatim>\<open>setupOffscreenDocument\<close> made so far
  where it stands. A promise is named by the number of the platform call it wraps.
\<close>

datatype caller =
    Returned
  | AwaitOwn nat
  | AwaitShared nat

record offscreen =
  offscreenDocumentCreated :: bool
  creating :: "nat option"
  createCalls :: nat
  running :: "nat list"
  settled :: "nat list"
  callers :: "caller list"

definition offscreen_init :: offscreen where
  "offscreen_init =
     \<lparr>offscreenDocumentCreated = False, creating = None, createCalls = 0,
      running = [], settled = [], callers = []\<rparr>"

text \<open>
  The steps of the event loop: a new call of \<^verbatim>\<open>setupOffscreenDocument\<close> (up to its
  first \<^verbatim>\<open>await\<close> or its \<^verbatim>\<open>return\<close>); the platform call of a promise finishes,
  with success or with an error, and the rest of the \<^verbatim>\<open>async\<close> block runs; a waiting
  call goes on after its \<^verbatim>\<open>await\<close>.
\<close>

datatype offscreen_event =
    Ensure
  | Complete nat bool
  | Resume nat

definition ensure :: "offscreen \<Rightarrow> offscreen" where
  "ensure s =
     (if offscreenDocumentCreated s then s\<lparr>callers := callers s @ [Returned]\<rparr>
      else
        (case creating s of
           Some p \<Rightarrow> s\<lparr>callers := callers s @ [AwaitShared p]\<rparr>
         | None \<Rightarrow>
             (let p = createCalls s in
              s\<lparr>creating := Some p,
                createCalls := createCalls s + 1,
                running := running s @ [p],
                callers := callers s @ [AwaitOwn p]\<rparr>)))"

text \<open>Both branches of the \<^verbatim>\<open>try\<close> set the flag.\<close>

definition complete :: "offscreen \<Rightarrow> nat \<Rightarrow> bool \<Rightarrow> offscreen" where
  "complete s p ok =
     (if p \<in> set (running s)
      then (if ok
            then s\<lparr>offscreenDocumentCreated := True,
                   running := removeAll p (running s), settled := settled s @ [p]\<rparr>
            else s\<lparr>offscreenDocumentCreated := True,
                   running := removeAll p (running s), settled := settled s @ [p]\<rparr>)
      else s)"

text \<open>
  After \<^verbatim>\<open>await creating\<close> the first caller runs \<^verbatim>\<open>creating = null\<close>; a caller
  that waited for the shared promise returns.
\<close>

definition resume :: "offscreen \<Rightarrow> nat \<Rightarrow> offscreen" where
  "resume s i =
     (if i < length (callers s) then
        (case callers s ! i of
           Returned \<Rightarrow> s
         | AwaitOwn p \<Rightarrow>
             if p \<in> set (settled s)
             then s\<lparr>creating := None, callers := (callers s)[i := Returned]\<rparr>
             else s
         | AwaitShared p \<Rightarrow>
             if p \<in> set (settled s)
             then s\<lparr>callers := (callers s)[i := Returned]\<rparr>
             else s)
      else s)"

fun offscreen_step :: "offscreen \<Rightarrow> offscreen_event \<Rightarrow> offscreen" where
  "offscreen_step s Ensure = ensure s"
| "offscreen_step s (Complete p ok) = complete s p ok"
| "offscreen_step s (Resume i) = resume s i"

definition offscreen_run :: "offscreen_event list \<Rightarrow> offscreen" where
  "offscreen_run evs = foldl offscreen_step offscreen_init evs"

section \<open>The platform's percent-decoding, and the runs the examples use\<close>

text \<open>
  \<^verbatim>\<open>decodeURIComponent\<close> as ECMA-262 defines it (Decode with an empty set of
  preserved escapes): a code unit other than \<^verbatim>\<open>%\<close> is copied; \<^verbatim>\<open>%\<close> needs two
  hexadecimal digits; an octet below 128 is that code unit; an octet with 2, 3 or 4 leading
  one bits opens a UTF-8 sequence of that many octets, each further one written as an
  escape of its own, and the sequence must be well-formed UTF-8; the code point is written
  in UTF-16. Everything else throws, which is \<open>None\<close>.
\<close>

definition hex_digit :: "jschar \<Rightarrow> nat option" where
  "hex_digit c =
     (if 48 \<le> c \<and> c \<le> 57 then Some (unat c - 48)
      else if 65 \<le> c \<and> c \<le> 70 then Some (unat c - 55)
      else if 97 \<le> c \<and> c \<le> 102 then Some (unat c - 87)
      else None)"

definition hex_octet :: "jschar \<Rightarrow> jschar \<Rightarrow> nat option" where
  "hex_octet h l =
     (case hex_digit h of
        None \<Rightarrow> None
      | Some a \<Rightarrow> (case hex_digit l of None \<Rightarrow> None | Some b \<Rightarrow> Some (16 * a + b)))"

definition leading_ones :: "nat \<Rightarrow> nat" where
  "leading_ones b =
     (if b < 128 then 0 else if b < 192 then 1 else if b < 224 then 2
      else if b < 240 then 3 else if b < 248 then 4 else 5)"

definition continuation :: "nat \<Rightarrow> bool" where
  "continuation b \<longleftrightarrow> 128 \<le> b \<and> b \<le> 191"

fun utf8_code_point :: "nat list \<Rightarrow> nat option" where
  "utf8_code_point [a, b] =
     (if 194 \<le> a \<and> a \<le> 223 \<and> continuation b
      then Some ((a - 192) * 64 + (b - 128)) else None)"
| "utf8_code_point [a, b, c] =
     (if 224 \<le> a \<and> a \<le> 239 \<and> continuation b \<and> continuation c \<and>
         (if a = 224 then 160 \<le> b else True) \<and> (if a = 237 then b \<le> 159 else True)
      then Some ((a - 224) * 4096 + (b - 128) * 64 + (c - 128)) else None)"
| "utf8_code_point [a, b, c, d] =
     (if 240 \<le> a \<and> a \<le> 244 \<and> continuation b \<and> continuation c \<and> continuation d \<and>
         (if a = 240 then 144 \<le> b else True) \<and> (if a = 244 then b \<le> 143 else True)
      then Some ((a - 240) * 262144 + (b - 128) * 4096 + (c - 128) * 64 + (d - 128))
      else None)"
| "utf8_code_point octets = None"

definition utf16_encode :: "nat \<Rightarrow> jsstring" where
  "utf16_encode v =
     (if v < 65536 then [of_nat v]
      else [of_nat (55296 + (v - 65536) div 1024), of_nat (56320 + (v - 65536) mod 1024)])"

text \<open>
  \<open>need\<close> is the number of octets the open UTF-8 sequence still lacks and \<open>octets\<close>
  what it has so far.
\<close>

fun decode_from :: "nat \<Rightarrow> nat list \<Rightarrow> jsstring \<Rightarrow> jsstring option" where
  "decode_from need octets [] = (if need = 0 then Some [] else None)"
| "decode_from need octets (c # rest) =
     (if need = 0 \<and> c \<noteq> 37 then map_option ((#) c) (decode_from 0 [] rest)
      else if c \<noteq> 37 then None
      else
        (case rest of
           h # l # rest' \<Rightarrow>
             (case hex_octet h l of
                None \<Rightarrow> None
              | Some b \<Rightarrow>
                  if need = 0 then
                    (if leading_ones b = 0
                     then map_option ((#) (of_nat b)) (decode_from 0 [] rest')
                     else if leading_ones b = 1 \<or> leading_ones b > 4 then None
                     else decode_from (leading_ones b - 1) [b] rest')
                  else if need = 1 then
                    (case utf8_code_point (octets @ [b]) of
                       None \<Rightarrow> None
                     | Some v \<Rightarrow> map_option ((@) (utf16_encode v)) (decode_from 0 [] rest'))
                  else decode_from (need - 1) (octets @ [b]) rest')
         | _ \<Rightarrow> None))"

definition decodeURIComponent_js :: "jsstring \<Rightarrow> jsstring option" where
  "decodeURIComponent_js s = decode_from 0 [] s"

text \<open>
  The path the platform's URL parser gives for the addresses of the examples; every one
  of them is an \<^verbatim>\<open>https\<close> address with a plain host, whose path is what follows
  the host. The platform of the examples rejects every other string, as the parser
  rejects a string with no scheme.
\<close>

definition example_pathnames :: "(jsstring \<times> jsstring) list" where
  "example_pathnames =
     [(js ''https://x/y/My%20Doc.pdf'', js ''/y/My%20Doc.pdf''),
      (js ''https://x/a.pdf.txt'', js ''/a.pdf.txt''),
      (js ''https://x/y/'', js ''/y/''),
      (js ''https://x/long.pdf'', js ''/long.pdf'')]"

text \<open>
  A platform for the examples: the addresses above parse, every fetch succeeds, and the
  library loads the given document.
\<close>

definition example_platform :: "pdf_document \<Rightarrow> platform" where
  "example_platform pdf =
     \<lparr>URL_pathname = map_of example_pathnames,
      decodeURIComponent = decodeURIComponent_js,
      fetch = (\<lambda>u. Response True []),
      getDocument = (\<lambda>arrayBuffer. Inr pdf),
      getDocumentURL = (\<lambda>u. Inr pdf)\<rparr>"

text \<open>A document with the given pages, each a list of text items.\<close>

definition document_of :: "jsstring list list \<Rightarrow> pdf_document" where
  "document_of pages =
     \<lparr>numPages = length pages,
      pageItems = (\<lambda>i. if 1 \<le> i \<and> i \<le> length pages then Inr (pages ! (i - 1))
                        else Inl (Error (js ''Invalid page request'')))\<rparr>"

text \<open>The scenario of the specification: three pages reading A, B B and C C C.\<close>

definition three_pages :: "jsstring list list" where
  "three_pages = [[js ''A''], [js ''B'', js ''B''], [js ''C'', js ''C'', js ''C'']]"

text \<open>One page with two items, the first of 50000 letters.\<close>

definition long_page :: "jsstring list list" where
  "long_page = [[replicate 50000 97, js ''b'']]"

text \<open>
  The title as the specification words it: the last path segment, percent-decoded, with a
  trailing \<^verbatim>\<open>.pdf\<close> stripped; the default label on a failure or an empty result.
\<close>

definition strip_pdf_suffix :: "jsstring \<Rightarrow> jsstring" where
  "strip_pdf_suffix s =
     (if 4 \<le> length s \<and> drop (length s - 4) s = js ''.pdf''
      then take (length s - 4) s else s)"

definition title_spec :: "platform \<Rightarrow> jsstring \<Rightarrow> jsstring" where
  "title_spec P u =
     (case URL_pathname P u of
        None \<Rightarrow> default_title
      | Some urlPath \<Rightarrow>
          (case decodeURIComponent P (pop_or_empty (split_char 47 urlPath)) of
             None \<Rightarrow> default_title
           | Some d \<Rightarrow>
               if strip_pdf_suffix d = [] then default_title else strip_pdf_suffix d))"

text \<open>
  A page in the viewer, complete, with an empty body and no page elements; the first two
  scraping methods do as given, the other three return the empty string.
\<close>

definition example_dom :: "(error + jsstring) \<Rightarrow> (error + jsstring) \<Rightarrow> dom" where
  "example_dom first second =
     \<lparr>location_href = js ''https://x/y/My%20Doc.pdf'',
      readyState = js ''complete'',
      bodyTextContent = Some [],
      bodyInnerHTML = [],
      embedFound = True,
      viewerFound = False,
      dataPageNumberCount = 0,
      pageClassCount = 0,
      textLayerCount = 0,
      pageElementCount = 0,
      pageOfN = None,
      textLayers_result = first,
      pluginContent_result = second,
      clipboard_result = Inr [],
      selectAll_result = Inr [],
      embedElement_result = Inr []\<rparr>"

text \<open>A record an extraction could resolve to, for the runs of the retry loop.\<close>

definition example_content :: PDFContent where
  "example_content =
     \<lparr>title = js ''My Doc'', url = js ''https://x/y/My%20Doc.pdf'',
      textContent = js ''A'', wordCount = 1, pageCount = 1\<rparr>"

text \<open>
  What holds of the state after any sequence of steps: at most the platform call
  number 0 exists; before the first call nothing is pending; while the flag is unset
  after a call, the pending promise is the one of call 0 and that call is running; once
  the flag is set, call 0 is settled and no call is running; every caller has returned
  or waits for promise 0.
\<close>

definition offscreen_inv :: "offscreen \<Rightarrow> bool" where
  "offscreen_inv s \<longleftrightarrow>
     createCalls s \<le> 1 \<and>
     (if createCalls s = 0
      then \<not> offscreenDocumentCreated s \<and> creating s = None \<and> running s = [] \<and>
           settled s = [] \<and> callers s = []
      else if offscreenDocumentCreated s
      then running s = [] \<and> set (settled s) = {0} \<and>
           (creating s = None \<or> creating s = Some 0)
      else creating s = Some 0 \<and> running s = [0] \<and> settled s = []) \<and>
     set (callers s) \<subseteq> {Returned, AwaitOwn 0, AwaitShared 0}"

section \<open>Properties\<close>

lemma js_neq_extractPDFFromBackground:
  "js ''contentReady'' \<noteq> js ''extractPDFFromBackground''"
  by (simp add: js_def)

lemma js_neq_extractPDFInViewer:
  "js ''contentReady'' \<noteq> js ''extractPDFInViewer''"
  by (simp add: js_def)

lemma onMessage_contentReady:
  "action m = js ''contentReady'' \<Longrightarrow>
   onMessage st m =
     (case data m of
        Some d \<Rightarrow> (st\<lparr>currentPDFContent := Some d\<rparr>, [StorageSet d, SendResponse Success], False)
      | None \<Rightarrow> (st, [SendResponse Success], False))"
  by (simp add: onMessage_def js_neq_extractPDFFromBackground js_neq_extractPDFInViewer)

text \<open>
  C10. For every \<^verbatim>\<open>contentReady\<close> message the listener calls \<^verbatim>\<open>sendResponse\<close>
  exactly once, with \<^verbatim>\<open>{success: true}\<close>, whether or not the message carries a
  \<^verbatim>\<open>data\<close> payload. Without a payload the cached document is left as it was; with a
  payload the cache holds that payload afterwards.
\<close>

theorem contentReady_replies_success:
  assumes "action m = js ''contentReady''"
  shows "[r. SendResponse r \<leftarrow> fst (snd (onMessage st m))] = [Success]
       \<and> (data m = None \<longrightarrow> fst (onMessage st m) = st)
       \<and> (\<forall>d. data m = Some d \<longrightarrow> currentPDFContent (fst (onMessage st m)) = Some d)"
  using assms by (cases "data m") (simp_all add: onMessage_contentReady)

theorem contentReady_replies_success_witness:
  "onMessage \<lparr>currentPDFContent = Some example_content\<rparr>
      \<lparr>action = js ''contentReady'', data = None, msg_url = None, origin = None\<rparr>
     = (\<lparr>currentPDFContent = Some example_content\<rparr>, [SendResponse Success], False)
   \<and> onMessage \<lparr>currentPDFContent = None\<rparr>
      \<lparr>action = js ''contentReady'', data = Some example_content, msg_url = None, origin = None\<rparr>
     = (\<lparr>currentPDFContent = Some example_content\<rparr>,
        [StorageSet example_content, SendResponse Success], False)"
proof
  let ?m = "\<lparr>action = js ''contentReady'', data = None, msg_url = None, origin = None\<rparr>"
  let ?st = "\<lparr>currentPDFContent = Some example_content\<rparr>"
  have "action ?m = js ''contentReady''" by simp
  from contentReady_replies_success[OF this, of ?st]
  have "fst (onMessage ?st ?m) = ?st" by simp
  moreover have "snd (onMessage ?st ?m) = ([SendResponse Success], False)"
    by (simp add: onMessage_contentReady)
  ultimately show "onMessage ?st ?m = (?st, [SendResponse Success], False)"
    by (simp add: prod_eq_iff)
next
  let ?m = "\<lparr>action = js ''contentReady'', data = Some example_content,
             msg_url = None, origin = None\<rparr>"
  let ?st = "\<lparr>currentPDFContent = None\<rparr>"
  have "action ?m = js ''contentReady''" by simp
  from contentReady_replies_success[OF this, of ?st]
  have "currentPDFContent (fst (onMessage ?st ?m)) = Some example_content" by simp
  then have "fst (onMessage ?st ?m) = \<lparr>currentPDFContent = Some example_content\<rparr>"
    by (cases "fst (onMessage ?st ?m)") simp
  moreover have "snd (onMessage ?st ?m) =
      ([StorageSet example_content, SendResponse Success], False)"
    by (simp add: onMessage_contentReady)
  ultimately show "onMessage ?st ?m =
      (\<lparr>currentPDFContent = Some example_content\<rparr>,
       [StorageSet example_content, SendResponse Success], False)"
    by (simp add: prod_eq_iff)
qed

subsection \<open>The library path\<close>

lemma pagesLoop_closed:
  "(\<And>j. i \<le> j \<Longrightarrow> j \<le> n \<Longrightarrow> pageItems pdf j = Inr (f j)) \<Longrightarrow>
   pagesLoop pdf n i acc =
     Inr (acc @ concat (map (\<lambda>j. join space (f j) @ blank_line) [i..<Suc n]))"
proof (induction pdf n i acc rule: pagesLoop.induct)
  case (1 pdf n i fullText)
  show ?case
  proof (cases "i \<le> n")
    case True
    have here: "pageItems pdf i = Inr (f i)" using "1.prems" True by simp
    have rest: "pagesLoop pdf n (i + 1) (fullText @ join space (f i) @ blank_line) =
      Inr ((fullText @ join space (f i) @ blank_line) @
           concat (map (\<lambda>j. join space (f j) @ blank_line) [i + 1..<Suc n]))"
      using "1.IH"[OF True here] "1.prems" by simp
    have upt: "[i..<Suc n] = i # [i + 1..<Suc n]"
      using True by (simp add: upt_conv_Cons)
    show ?thesis
      using True here rest by (subst pagesLoop.simps) (simp add: upt del: upt_Suc)
  next
    case False
    then show ?thesis by (subst pagesLoop.simps) simp
  qed
qed

lemma map_pages_index:
  "map (\<lambda>j. g (pages ! (j - 1))) [1..<Suc (length pages)] = map g pages"
proof -
  have "[1..<Suc (length pages)] = map Suc [0..<length pages]"
    by (simp add: map_Suc_upt del: upt_Suc)
  then have "map (\<lambda>j. g (pages ! (j - 1))) [1..<Suc (length pages)] =
             map (\<lambda>i. g (pages ! i)) [0..<length pages]"
    by (simp add: comp_def del: upt_Suc)
  also have "\<dots> = map g (map ((!) pages) [0..<length pages])"
    by (simp add: comp_def)
  also have "\<dots> = map g pages"
    by (simp only: map_nth)
  finally show ?thesis .
qed

lemma pagesLoop_pages:
  assumes "numPages pdf = length pages"
      and "\<forall>i<length pages. pageItems pdf (Suc i) = Inr (pages ! i)"
  shows "pagesLoop pdf (numPages pdf) 1 [] =
         Inr (concat (map (\<lambda>items. join space items @ blank_line) pages))"
proof -
  have "\<And>j. 1 \<le> j \<Longrightarrow> j \<le> length pages \<Longrightarrow> pageItems pdf j = Inr (pages ! (j - 1))"
  proof -
    fix j :: nat assume "1 \<le> j" "j \<le> length pages"
    then have "j - 1 < length pages" "Suc (j - 1) = j" by simp_all
    then show "pageItems pdf j = Inr (pages ! (j - 1))" using assms(2) by metis
  qed
  then have "pagesLoop pdf (length pages) 1 [] =
     Inr ([] @ concat (map (\<lambda>j. join space (pages ! (j - 1)) @ blank_line) [1..<Suc (length pages)]))"
    by (rule pagesLoop_closed)
  then show ?thesis
    using map_pages_index[of "\<lambda>items. join space items @ blank_line" pages] assms(1)
    by (simp del: upt_Suc)
qed

lemma document_of_pages:
  "numPages (document_of pages) = length pages"
  "\<forall>i<length pages. pageItems (document_of pages) (Suc i) = Inr (pages ! i)"
  by (simp_all add: document_of_def)

lemma example_title_offscreen:
  "extractTitleFromURL_offscreen (example_platform pdf) (js ''https://x/y/My%20Doc.pdf'')
   = js ''My Doc''"
  by (simp add: extractTitleFromURL_offscreen_def example_platform_def example_pathnames_def
      js_def pop_or_empty_def decodeURIComponent_js_def hex_octet_def hex_digit_def
      leading_ones_def)

text \<open>
  C6. When the fetch succeeds and the library loads a document whose pages can all be
  read, \<^verbatim>\<open>extractPDF\<close> visits the pages in index order, joins the items of a page
  with single spaces, puts a blank-line separator after every page, cuts the text at
  50000 code units, and reports the number of pages of the document. For the three pages
  A, B B and C C C the text is \<^verbatim>\<open>"A\n\nB B\n\nC C C\n\n"\<close>, with 6 words and 3
  pages.
\<close>

theorem library_path_joins_pages:
  assumes "fetch P u = Response True arrayBuffer"
      and "getDocument P arrayBuffer = Inr pdf"
      and "numPages pdf = length pages"
      and "\<forall>i<length pages. pageItems pdf (Suc i) = Inr (pages ! i)"
  shows "extractPDF P u =
         Inr \<lparr>title = extractTitleFromURL_offscreen P u,
              url = u,
              textContent =
                substring0 (concat (map (\<lambda>items. join space items @ blank_line) pages)) 50000,
              wordCount = countWords (concat (map (\<lambda>items. join space items @ blank_line) pages)),
              pageCount = length pages\<rparr>"
  using assms(1,2,3) pagesLoop_pages[OF assms(3,4)] by (simp add: extractPDF_def)

theorem library_path_joins_pages_witness:
  "extractPDF (example_platform (document_of three_pages)) (js ''https://x/y/My%20Doc.pdf'') =
     Inr \<lparr>title = js ''My Doc'',
          url = js ''https://x/y/My%20Doc.pdf'',
          textContent = js ''A'' @ blank_line @ js ''B B'' @ blank_line @ js ''C C C'' @ blank_line,
          wordCount = 6,
          pageCount = 3\<rparr>"
proof -
  let ?P = "example_platform (document_of three_pages)"
  have f: "fetch ?P (js ''https://x/y/My%20Doc.pdf'') = Response True []"
    by (simp add: example_platform_def)
  have g: "getDocument ?P [] = Inr (document_of three_pages)"
    by (simp add: example_platform_def)
  have body: "concat (map (\<lambda>items. join space items @ blank_line) three_pages) =
        js ''A'' @ blank_line @ js ''B B'' @ blank_line @ js ''C C C'' @ blank_line"
    by (simp add: three_pages_def js_def space_def blank_line_def)
  have cw: "countWords (js ''A'' @ blank_line @ js ''B B'' @ blank_line @ js ''C C C'' @ blank_line) = 6"
    by (simp add: countWords_def js_def blank_line_def is_ws_def)
  have len: "length three_pages = 3" by (simp add: three_pages_def)
  have short: "substring0 (js ''A'' @ blank_line @ js ''B B'' @ blank_line @ js ''C C C'' @ blank_line) 50000
        = js ''A'' @ blank_line @ js ''B B'' @ blank_line @ js ''C C C'' @ blank_line"
    by (simp add: substring0_def js_def blank_line_def)
  show ?thesis
    using library_path_joins_pages[OF f g document_of_pages]
    by (simp only: example_title_offscreen body cw len short)
qed

lemma split_ws_replicate:
  "\<not> is_ws a \<Longrightarrow>
   split_ws (replicate (Suc n) a @ rest) cur b = split_ws rest (cur @ replicate (Suc n) a) False"
proof (induction n arbitrary: cur b)
  case 0
  then show ?case by simp
next
  case (Suc n)
  have "split_ws (replicate (Suc (Suc n)) a @ rest) cur b =
        split_ws (replicate (Suc n) a @ rest) (cur @ [a]) False"
    using Suc.prems by simp
  also have "\<dots> = split_ws rest ((cur @ [a]) @ replicate (Suc n) a) False"
    using Suc.IH[OF Suc.prems] .
  finally show ?case by simp
qed

lemma split_ws_replicate_pos:
  "\<not> is_ws a \<Longrightarrow> 0 < n \<Longrightarrow>
   split_ws (replicate n a @ rest) cur b = split_ws rest (cur @ replicate n a) False"
  using split_ws_replicate[of a "n - 1" rest cur b] by (cases n) simp_all

lemma not_ws_97: "\<not> is_ws 97"
  by (simp add: is_ws_def)

lemma countWords_long: "countWords (replicate 50000 97 @ js '' b'' @ blank_line) = 2"
  by (simp add: countWords_def split_ws_replicate_pos not_ws_97 is_ws_def js_def blank_line_def)

lemma countWords_cut: "countWords (replicate 50000 97) = 1"
  using split_ws_replicate_pos[of 97 50000 "[]" "[]" False]
  by (simp add: countWords_def not_ws_97)

lemma extractPDF_Inr:
  assumes "extractPDF P u = Inr r"
  shows "\<exists>arrayBuffer pdf fullText.
           fetch P u = Response True arrayBuffer \<and>
           getDocument P arrayBuffer = Inr pdf \<and>
           pagesLoop pdf (numPages pdf) 1 [] = Inr fullText \<and>
           r = \<lparr>title = extractTitleFromURL_offscreen P u, url = u,
                textContent = substring0 fullText 50000,
                wordCount = countWords fullText, pageCount = numPages pdf\<rparr>"
  using assms
  by (auto simp: extractPDF_def split: fetch_result.splits if_splits sum.splits)

lemma extractUsingPDFJSWithArrayBuffer_eq:
  "extractUsingPDFJSWithArrayBuffer P u = extractPDF P u"
  by (simp add: extractUsingPDFJSWithArrayBuffer_def extractPDF_def Let_def)

lemma three_pages_text:
  "concat (map (\<lambda>items. join space items @ blank_line) three_pages) =
   js ''A'' @ blank_line @ js ''B B'' @ blank_line @ js ''C C C'' @ blank_line"
  by (simp add: three_pages_def js_def space_def blank_line_def)

lemma three_pages_loop:
  "pagesLoop (document_of three_pages) (numPages (document_of three_pages)) 1 [] =
   Inr (js ''A'' @ blank_line @ js ''B B'' @ blank_line @ js ''C C C'' @ blank_line)"
  using pagesLoop_pages[OF document_of_pages, of three_pages] by (simp only: three_pages_text)

lemma three_pages_extract:
  "extractPDF (example_platform (document_of three_pages)) (js ''https://x/y/My%20Doc.pdf'') =
     Inr \<lparr>title = js ''My Doc'',
          url = js ''https://x/y/My%20Doc.pdf'',
          textContent = js ''A'' @ blank_line @ js ''B B'' @ blank_line @ js ''C C C'' @ blank_line,
          wordCount = 6,
          pageCount = 3\<rparr>"
proof -
  let ?P = "example_platform (document_of three_pages)"
  have f: "fetch ?P (js ''https://x/y/My%20Doc.pdf'') = Response True []"
    by (simp add: example_platform_def)
  have g: "getDocument ?P [] = Inr (document_of three_pages)"
    by (simp add: example_platform_def)
  have cw: "countWords (js ''A'' @ blank_line @ js ''B B'' @ blank_line @ js ''C C C'' @ blank_line) = 6"
    by (simp add: countWords_def js_def blank_line_def is_ws_def)
  have n: "numPages (document_of three_pages) = 3"
    by (simp add: document_of_def three_pages_def)
  have short: "substring0 (js ''A'' @ blank_line @ js ''B B'' @ blank_line @ js ''C C C'' @ blank_line) 50000
        = js ''A'' @ blank_line @ js ''B B'' @ blank_line @ js ''C C C'' @ blank_line"
    by (simp add: substring0_def js_def blank_line_def)
  show ?thesis
    using f g three_pages_loop
    by (simp add: extractPDF_def example_title_offscreen cw n short)
qed

lemma long_page_text:
  "concat (map (\<lambda>items. join space items @ blank_line) long_page)
   = replicate 50000 97 @ js '' b'' @ blank_line"
  by (simp add: long_page_def js_def space_def)

lemma long_page_loop:
  "pagesLoop (document_of long_page) (numPages (document_of long_page)) 1 [] =
   Inr (replicate 50000 97 @ js '' b'' @ blank_line)"
  using pagesLoop_pages[OF document_of_pages, of long_page] by (simp only: long_page_text)

lemma long_page_extract:
  "extractPDF (example_platform (document_of long_page)) (js ''https://x/long.pdf'') =
   Inr \<lparr>title = js ''long'', url = js ''https://x/long.pdf'',
        textContent = replicate 50000 97, wordCount = 2, pageCount = 1\<rparr>"
proof -
  let ?P = "example_platform (document_of long_page)"
  have f: "fetch ?P (js ''https://x/long.pdf'') = Response True []"
    by (simp add: example_platform_def)
  have g: "getDocument ?P [] = Inr (document_of long_page)"
    by (simp add: example_platform_def)
  have t: "extractTitleFromURL_offscreen ?P (js ''https://x/long.pdf'') = js ''long''"
    by (simp add: extractTitleFromURL_offscreen_def example_platform_def example_pathnames_def
      js_def pop_or_empty_def decodeURIComponent_js_def)
  have cut: "substring0 (replicate 50000 97 @ js '' b'' @ blank_line) 50000 = replicate 50000 97"
    by (simp add: substring0_def)
  have len: "length long_page = 1" by (simp add: long_page_def)
  show ?thesis
    using f g long_page_loop
    by (simp add: extractPDF_def t cut countWords_long document_of_pages(1) len)
qed

text \<open>
  C1, as the code has it. A record the library path returns (\<^verbatim>\<open>extractPDF\<close> of
  offscreen.ts, \<^verbatim>\<open>extractUsingPDFJSWithArrayBuffer\<close> of content.ts) carries the word
  count of the whole text the page loop built, and its text is the first 50000 code units
  of that text. The word count is the one of the text field whenever the whole text has
  at most 50000 code units.
\<close>

theorem wordCount_of_full_text:
  assumes "extractPDF P u = Inr r \<or> extractUsingPDFJSWithArrayBuffer P u = Inr r"
  shows "\<exists>arrayBuffer pdf fullText.
           fetch P u = Response True arrayBuffer \<and>
           getDocument P arrayBuffer = Inr pdf \<and>
           pagesLoop pdf (numPages pdf) 1 [] = Inr fullText \<and>
           textContent r = substring0 fullText 50000 \<and>
           wordCount r = countWords fullText \<and>
           (length fullText \<le> 50000 \<longrightarrow> wordCount r = countWords (textContent r))"
proof -
  from assms have "extractPDF P u = Inr r"
    by (simp add: extractUsingPDFJSWithArrayBuffer_eq)
  from extractPDF_Inr[OF this] show ?thesis
    by (auto simp: substring0_def)
qed

theorem wordCount_of_full_text_witness:
  "extractPDF (example_platform (document_of three_pages)) (js ''https://x/y/My%20Doc.pdf'') =
     Inr \<lparr>title = js ''My Doc'',
          url = js ''https://x/y/My%20Doc.pdf'',
          textContent = js ''A'' @ blank_line @ js ''B B'' @ blank_line @ js ''C C C'' @ blank_line,
          wordCount = 6,
          pageCount = 3\<rparr>
   \<and> countWords (js ''A'' @ blank_line @ js ''B B'' @ blank_line @ js ''C C C'' @ blank_line) = 6"
proof -
  let ?P = "example_platform (document_of three_pages)"
  let ?t = "js ''A'' @ blank_line @ js ''B B'' @ blank_line @ js ''C C C'' @ blank_line"
  let ?r = "\<lparr>title = js ''My Doc'', url = js ''https://x/y/My%20Doc.pdf'',
             textContent = ?t, wordCount = 6, pageCount = 3\<rparr>"
  have "extractPDF ?P (js ''https://x/y/My%20Doc.pdf'') = Inr ?r
      \<or> extractUsingPDFJSWithArrayBuffer ?P (js ''https://x/y/My%20Doc.pdf'') = Inr ?r"
    using three_pages_extract by simp
  from wordCount_of_full_text[OF this]
  obtain arrayBuffer pdf fullText where
    a: "getDocument ?P arrayBuffer = Inr pdf"
    and b: "pagesLoop pdf (numPages pdf) 1 [] = Inr fullText"
    and c: "length fullText \<le> 50000 \<longrightarrow> wordCount ?r = countWords (textContent ?r)"
    by blast
  from a have "pdf = document_of three_pages" by (simp add: example_platform_def)
  with b three_pages_loop have "fullText = ?t" by simp
  then have "length fullText \<le> 50000" by (simp add: js_def blank_line_def)
  with c have "countWords ?t = 6" by simp
  with three_pages_extract show ?thesis by simp
qed

text \<open>
  C1 as stated fails: for one page with the items \<^verbatim>\<open>'a'.repeat(50000)\<close> and
  \<^verbatim>\<open>'b'\<close> the text field is the 50000 letters, which are one word, and the record
  says 2.
\<close>

theorem wordCount_not_of_truncated_text:
  "extractPDF (example_platform (document_of long_page)) (js ''https://x/long.pdf'') =
     Inr \<lparr>title = js ''long'', url = js ''https://x/long.pdf'',
          textContent = replicate 50000 97, wordCount = 2, pageCount = 1\<rparr>
   \<and> countWords (replicate 50000 97) = 1"
  using long_page_extract countWords_cut by simp

subsection \<open>The ceilings\<close>

lemma length_substring0: "length (substring0 s n) \<le> n"
  by (simp add: substring0_def)

lemma viewer_length: "length (textContent (extractFromChromePDFViewer P D)) \<le> 10000"
  by (simp add: extractFromChromePDFViewer_def Let_def length_substring0)

lemma fallback_length: "length (textContent (extractFallbackText P D)) \<le> 1000"
  by (simp add: extractFallbackText_def Let_def length_substring0 js_def)

lemma fallback_content_length: "length (textContent (extractFallbackText_content P D)) \<le> 1000"
  by (simp add: extractFallbackText_content_def Let_def length_substring0 js_def)

lemma extractPDF_length: "extractPDF P u = Inr r \<Longrightarrow> length (textContent r) \<le> 50000"
  using extractPDF_Inr[of P u r] by (auto simp: length_substring0)

lemma extractUsingPDFJS_length: "length (textContent (extractUsingPDFJS P D u)) \<le> 10000"
  using fallback_length[of P D]
  by (simp add: extractUsingPDFJS_def Let_def length_substring0 split: sum.splits)

lemma extractUsingPDFJS_content_length:
  "length (textContent (extractUsingPDFJS_content P D u)) \<le> 10000"
  using fallback_content_length[of P D]
  by (simp add: extractUsingPDFJS_content_def Let_def length_substring0 split: sum.splits)

lemma collapse_ws_replicate:
  "\<not> is_ws a \<Longrightarrow> collapse_ws (replicate n a) b = replicate n a"
  by (induction n arbitrary: b) simp_all

lemma dropWhile_replicate:
  "\<not> is_ws a \<Longrightarrow> dropWhile is_ws (replicate n a) = replicate n a"
  by (cases n) simp_all

lemma trim_replicate: "\<not> is_ws a \<Longrightarrow> trim (replicate n a) = replicate n a"
  by (simp add: trim_def dropWhile_replicate)

lemma viewer_long:
  "textContent (extractFromChromePDFViewer P (example_dom (Inr (replicate 10001 97)) (Inr [])))
     = replicate 10000 97"
  by (simp add: extractFromChromePDFViewer_def extractionMethods_def example_dom_def
      chain_init_def Let_def substring0_def)

lemma fallback_long:
  "textContent (extractFallbackText P
      ((example_dom (Inr []) (Inr []))\<lparr>bodyTextContent := Some (replicate 1001 97)\<rparr>))
     = replicate 1000 97"
  by (simp add: extractFallbackText_def example_dom_def bodyText_def Let_def substring0_def
      collapse_ws_replicate trim_replicate not_ws_97)

text \<open>
  C9. The text of a record of the DOM-scraping path has at most 10000 code units, the
  text of a record of the byte-fetching library path at most 50000 (the address variants
  of the library path cut at 10000), and the text of the raw-body fallback at most 1000.
\<close>

theorem truncation_ceilings:
  "length (textContent (extractFromChromePDFViewer P D)) \<le> 10000
   \<and> (\<forall>r. extractPDF P u = Inr r \<longrightarrow> length (textContent r) \<le> 50000)
   \<and> (\<forall>r. extractUsingPDFJSWithArrayBuffer P u = Inr r \<longrightarrow> length (textContent r) \<le> 50000)
   \<and> length (textContent (extractUsingPDFJS P D u)) \<le> 10000
   \<and> length (textContent (extractUsingPDFJS_content P D u)) \<le> 10000
   \<and> length (textContent (extractFallbackText P D)) \<le> 1000
   \<and> length (textContent (extractFallbackText_content P D)) \<le> 1000"
  using viewer_length[of P D] fallback_length[of P D] fallback_content_length[of P D]
    extractUsingPDFJS_length[of P D u] extractUsingPDFJS_content_length[of P D u]
    extractPDF_length[of P u]
  by (simp add: extractUsingPDFJSWithArrayBuffer_eq)

theorem truncation_ceilings_witness:
  "extractPDF (example_platform (document_of long_page)) (js ''https://x/long.pdf'') =
     Inr \<lparr>title = js ''long'', url = js ''https://x/long.pdf'',
          textContent = replicate 50000 97, wordCount = 2, pageCount = 1\<rparr>
   \<and> length (replicate 50000 (97 :: jschar)) \<le> 50000
   \<and> textContent (extractFromChromePDFViewer (example_platform (document_of long_page))
        (example_dom (Inr (replicate 10001 97)) (Inr []))) = replicate 10000 97
   \<and> textContent (extractFallbackText (example_platform (document_of long_page))
        ((example_dom (Inr []) (Inr []))\<lparr>bodyTextContent := Some (replicate 1001 97)\<rparr>))
        = replicate 1000 97"
proof -
  let ?P = "example_platform (document_of long_page)"
  let ?r = "\<lparr>title = js ''long'', url = js ''https://x/long.pdf'',
          textContent = replicate 50000 97, wordCount = 2, pageCount = 1\<rparr>"
  have "length (textContent ?r) \<le> 50000"
    using truncation_ceilings[of ?P "example_dom (Inr []) (Inr [])" "js ''https://x/long.pdf''"]
      long_page_extract
    by blast
  then show ?thesis
    using long_page_extract viewer_long[of ?P] fallback_long[of ?P] by simp
qed

subsection \<open>The strategy chain\<close>













lemma runMethods_stops:
  assumes "\<forall>(n, f) \<in> set ms1. \<forall>r. f = Inr r \<longrightarrow> length r \<le> 50"
      and "50 < length s"
  shows "runMethods (ms1 @ (name, Inr s) # ms2) c =
         c\<lparr>invoked := invoked c @ map fst ms1 @ [name], chain_text := s, successfulMethod := name\<rparr>"
  using assms(1)
proof (induction ms1 arbitrary: c)
  case Nil
  then show ?case using assms(2) by (auto simp: Let_def)
next
  case (Cons m ms1)
  obtain n f where m: "m = (n, f)" by (cases m)
  have rest: "\<forall>(n, f) \<in> set ms1. \<forall>r. f = Inr r \<longrightarrow> length r \<le> 50"
    using Cons.prems by simp
  show ?case
  proof (cases f)
    case (Inl e)
    then show ?thesis using Cons.IH[OF rest] by (simp add: m Let_def)
  next
    case (Inr r)
    then have "length r \<le> 50" using Cons.prems m by simp
    then show ?thesis using Inr Cons.IH[OF rest] by (simp add: m Let_def)
  qed
qed

text \<open>
  C8. The methods are tried in the order of the array, and the loop stops at the first
  one whose string is longer than 50 code units: the methods called are the ones before
  it and itself, none after it, and its string is the extracted text. When the text-layer
  scrape returns 60 code units it is the only method called.
\<close>

theorem chain_stops_at_first_success:
  assumes "extractionMethods D = ms1 @ (name, Inr s) # ms2"
      and "\<forall>(n, f) \<in> set ms1. \<forall>r. f = Inr r \<longrightarrow> length r \<le> 50"
      and "50 < length s"
  shows "invoked (runMethods (extractionMethods D) chain_init) = map fst ms1 @ [name]
       \<and> chain_text (runMethods (extractionMethods D) chain_init) = s
       \<and> successfulMethod (runMethods (extractionMethods D) chain_init) = name
       \<and> textContent (extractFromChromePDFViewer P D) = substring0 s 10000"
proof -
  have run: "runMethods (extractionMethods D) chain_init =
        chain_init\<lparr>invoked := invoked chain_init @ map fst ms1 @ [name],
                   chain_text := s, successfulMethod := name\<rparr>"
    using runMethods_stops[OF assms(2,3)] assms(1) by simp
  have run': "runMethods (extractionMethods D) chain_init =
        \<lparr>chain_text = s, successfulMethod = name, invoked = map fst ms1 @ [name]\<rparr>"
    by (simp add: run) (simp add: chain_init_def)
  have "s \<noteq> []" "\<not> length s < 20" using assms(3) by auto
  then show ?thesis
    by (simp add: run' extractFromChromePDFViewer_def Let_def)
qed

theorem chain_stops_at_first_success_witness:
  "invoked (runMethods (extractionMethods (example_dom (Inr (replicate 60 97)) (Inr []))) chain_init)
     = [js ''extractFromTextLayers'']
   \<and> textContent (extractFromChromePDFViewer (example_platform (document_of []))
        (example_dom (Inr (replicate 60 97)) (Inr []))) = replicate 60 97"
proof -
  let ?D = "example_dom (Inr (replicate 60 97)) (Inr [])"
  have a: "extractionMethods ?D =
     [] @ (js ''extractFromTextLayers'', Inr (replicate 60 97)) #
       [(js ''extractFromPDFPluginContent'', Inr []),
        (js ''extractUsingClipboard'', Inr []),
        (js ''trySelectAllText'', Inr []),
        (js ''extractFromEmbedElement'', Inr [])]"
    by (simp add: extractionMethods_def example_dom_def)
  have b: "\<forall>(n, f) \<in> set ([] :: (jsstring \<times> (error + jsstring)) list). \<forall>r. f = Inr r \<longrightarrow> length r \<le> 50"
    by simp
  have c: "50 < length (replicate 60 (97 :: jschar))" by simp
  show ?thesis
    using chain_stops_at_first_success[OF a b c, of "example_platform (document_of [])"]
    by (simp add: substring0_def)
qed


subsection \<open>The retry loop\<close>

lemma delays: "delay 0 = 2000" "delay 1 = 4000" "delay 2 = 8000" "delay 3 = 10000"
  by (simp_all add: delay_def)

lemma attempt_3:
  "attemptAutoExtraction extraction channel href 3 =
     Timer 10000 #
     (case extraction 3 of
        Inr content \<Rightarrow> Sent content (channel 3) # (if channel 3 then [] else [LoggedFailure])
      | Inl e \<Rightarrow> [Sent (failedAutoExtraction href) (channel 3)])"
  by (subst attemptAutoExtraction.simps) (simp add: maxRetries_def delays split: sum.splits)

lemma attempt_step:
  "retryCount < 3 \<Longrightarrow>
   attemptAutoExtraction extraction channel href retryCount =
     Timer (delay retryCount) #
     (case extraction retryCount of
        Inr content \<Rightarrow>
          Sent content (channel retryCount) #
          (if channel retryCount then []
           else attemptAutoExtraction extraction channel href (retryCount + 1))
      | Inl e \<Rightarrow> attemptAutoExtraction extraction channel href (retryCount + 1))"
  by (subst attemptAutoExtraction.simps) (simp add: maxRetries_def split: sum.splits)

lemma timers_from:
  "retryCount \<le> 3 \<Longrightarrow>
   \<exists>n. 1 \<le> n \<and> retryCount + n \<le> 4 \<and>
       [d. Timer d \<leftarrow> attemptAutoExtraction extraction channel href retryCount]
         = map delay [retryCount..<retryCount + n]"
proof (induction "3 - retryCount" arbitrary: retryCount)
  case 0
  then have r: "retryCount = 3" by simp
  show ?case
    by (rule exI[of _ 1]) (auto simp: r attempt_3 delays split: sum.splits)
next
  case (Suc k)
  then have lt: "retryCount < 3" and k: "k = 3 - (retryCount + 1)" and le: "retryCount + 1 \<le> 3"
    by simp_all
  from Suc.hyps(1)[OF k le] obtain n where
    n: "1 \<le> n" "retryCount + 1 + n \<le> 4"
       "[d. Timer d \<leftarrow> attemptAutoExtraction extraction channel href (retryCount + 1)]
          = map delay [retryCount + 1..<retryCount + 1 + n]"
    by blast
  have cons: "[retryCount..<retryCount + (n + 1)] = retryCount # [retryCount + 1..<retryCount + 1 + n]"
    by (simp add: upt_conv_Cons)
  show ?case
  proof (cases "extraction retryCount")
    case (Inl e)
    show ?thesis
      by (rule exI[of _ "n + 1"]) (use n Inl cons in \<open>simp add: attempt_step[OF lt]\<close>)
  next
    case (Inr content)
    show ?thesis
    proof (cases "channel retryCount")
      case True
      show ?thesis
        by (rule exI[of _ 1]) (use lt Inr True in \<open>simp add: attempt_step[OF lt]\<close>)
    next
      case False
      show ?thesis
        by (rule exI[of _ "n + 1"]) (use n Inr False cons in \<open>simp add: attempt_step[OF lt]\<close>)
    qed
  qed
qed

lemma attempt_s0:
  "attemptAutoExtraction extraction channel href 0 =
     Timer 2000 #
     (case extraction 0 of
        Inr content \<Rightarrow>
          Sent content (channel 0) #
          (if channel 0 then [] else attemptAutoExtraction extraction channel href (Suc 0))
      | Inl e \<Rightarrow> attemptAutoExtraction extraction channel href (Suc 0))"
  by (subst attemptAutoExtraction.simps) (simp add: maxRetries_def delay_def split: sum.splits)

lemma attempt_s1:
  "attemptAutoExtraction extraction channel href (Suc 0) =
     Timer 4000 #
     (case extraction (Suc 0) of
        Inr content \<Rightarrow>
          Sent content (channel (Suc 0)) #
          (if channel (Suc 0) then []
           else attemptAutoExtraction extraction channel href (Suc (Suc 0)))
      | Inl e \<Rightarrow> attemptAutoExtraction extraction channel href (Suc (Suc 0)))"
  by (subst attemptAutoExtraction.simps) (simp add: maxRetries_def delay_def split: sum.splits)

lemma attempt_s2:
  "attemptAutoExtraction extraction channel href (Suc (Suc 0)) =
     Timer 8000 #
     (case extraction (Suc (Suc 0)) of
        Inr content \<Rightarrow>
          Sent content (channel (Suc (Suc 0))) #
          (if channel (Suc (Suc 0)) then []
           else attemptAutoExtraction extraction channel href (Suc (Suc (Suc 0))))
      | Inl e \<Rightarrow> attemptAutoExtraction extraction channel href (Suc (Suc (Suc 0))))"
  by (subst attemptAutoExtraction.simps) (simp add: maxRetries_def delay_def split: sum.splits)

lemma attempt_s3:
  "attemptAutoExtraction extraction channel href (Suc (Suc (Suc 0))) =
     Timer 10000 #
     (case extraction (Suc (Suc (Suc 0))) of
        Inr content \<Rightarrow>
          Sent content (channel (Suc (Suc (Suc 0)))) #
          (if channel (Suc (Suc (Suc 0))) then [] else [LoggedFailure])
      | Inl e \<Rightarrow> [Sent (failedAutoExtraction href) (channel (Suc (Suc (Suc 0))))])"
  by (subst attemptAutoExtraction.simps) (simp add: maxRetries_def delay_def split: sum.splits)

lemmas attempt_unfold = attempt_s0 attempt_s1 attempt_s2 attempt_s3

lemma sends_fail_then_succeed:
  assumes "\<forall>k<4. extraction k = Inr (c k)"
      and "\<forall>k<3. \<not> channel k" and "channel 3"
  shows "attemptAutoExtraction extraction channel href 0 =
     [Timer 2000, Sent (c 0) False, Timer 4000, Sent (c 1) False, Timer 8000, Sent (c 2) False,
      Timer 10000, Sent (c 3) True]"
  using assms by (simp add: attempt_unfold numeral_2_eq_2 numeral_3_eq_3)

lemma extraction_always_throws:
  assumes "\<forall>k<4. \<exists>e. extraction k = Inl e"
  shows "attemptAutoExtraction extraction channel href 0 =
     [Timer 2000, Timer 4000, Timer 8000, Timer 10000, Sent (failedAutoExtraction href) (channel 3)]"
proof -
  have "\<exists>e. extraction 0 = Inl e" using assms by simp
  then obtain e0 where e0: "extraction 0 = Inl e0" ..
  have "\<exists>e. extraction (Suc 0) = Inl e" using assms by simp
  then obtain e1 where e1: "extraction (Suc 0) = Inl e1" ..
  have "\<exists>e. extraction (Suc (Suc 0)) = Inl e" using assms by simp
  then obtain e2 where e2: "extraction (Suc (Suc 0)) = Inl e2" ..
  have "\<exists>e. extraction (Suc (Suc (Suc 0))) = Inl e" using assms by simp
  then obtain e3 where e3: "extraction (Suc (Suc (Suc 0))) = Inl e3" ..
  show ?thesis
    by (simp add: attempt_unfold e0 e1 e2 e3 numeral_3_eq_3)
qed

lemma sends_always_fail:
  assumes "\<forall>k<4. extraction k = Inr (c k)"
      and "\<forall>k<4. \<not> channel k"
  shows "attemptAutoExtraction extraction channel href 0 =
     [Timer 2000, Sent (c 0) False, Timer 4000, Sent (c 1) False, Timer 8000, Sent (c 2) False,
      Timer 10000, Sent (c 3) False, LoggedFailure]"
  using assms by (simp add: attempt_unfold numeral_2_eq_2 numeral_3_eq_3)

lemma timers_at_most_four:
  "\<exists>n. 1 \<le> n \<and> n \<le> 4 \<and>
       [d. Timer d \<leftarrow> attemptAutoExtraction extraction channel href 0] = map delay [0..<n]"
  using timers_from[of 0 extraction channel href] by simp

text \<open>
  C3, as the code has it. A run of \<^verbatim>\<open>attemptAutoExtraction()\<close> makes at most four
  attempts, the attempt with \<^verbatim>\<open>retryCount = k\<close> after a timer of
  \<open>min (2000 * 2 ^ k) 10000\<close> milliseconds. When every extraction resolves and the send
  fails three times and then succeeds, the fourth record is delivered and nothing else is
  sent. When the extraction rejects in all four attempts, exactly one record is sent, the
  placeholder with word count 0 and page count 0.
\<close>

theorem auto_extraction_retries:
  "(\<exists>n. 1 \<le> n \<and> n \<le> 4 \<and>
       [d. Timer d \<leftarrow> attemptAutoExtraction extraction channel href 0] = map delay [0..<n])
   \<and> delay k = min (2000 * 2 ^ k) 10000
   \<and> ((\<forall>k<4. extraction k = Inr (c k)) \<and> (\<forall>k<3. \<not> channel k) \<and> channel 3 \<longrightarrow>
        attemptAutoExtraction extraction channel href 0 =
          [Timer 2000, Sent (c 0) False, Timer 4000, Sent (c 1) False,
           Timer 8000, Sent (c 2) False, Timer 10000, Sent (c 3) True])
   \<and> ((\<forall>k<4. \<exists>e. extraction k = Inl e) \<longrightarrow>
        attemptAutoExtraction extraction channel href 0 =
          [Timer 2000, Timer 4000, Timer 8000, Timer 10000,
           Sent (failedAutoExtraction href) (channel 3)]
        \<and> wordCount (failedAutoExtraction href) = 0
        \<and> pageCount (failedAutoExtraction href) = 0)"
proof (intro conjI impI)
  show "\<exists>n. 1 \<le> n \<and> n \<le> 4 \<and>
       [d. Timer d \<leftarrow> attemptAutoExtraction extraction channel href 0] = map delay [0..<n]"
    by (rule timers_at_most_four)
  show "delay k = min (2000 * 2 ^ k) 10000"
    by (simp add: delay_def)
  show "attemptAutoExtraction extraction channel href 0 =
          [Timer 2000, Sent (c 0) False, Timer 4000, Sent (c 1) False,
           Timer 8000, Sent (c 2) False, Timer 10000, Sent (c 3) True]"
    if "(\<forall>k<4. extraction k = Inr (c k)) \<and> (\<forall>k<3. \<not> channel k) \<and> channel 3"
    using that sends_fail_then_succeed[of extraction c channel href] by blast
  show "attemptAutoExtraction extraction channel href 0 =
          [Timer 2000, Timer 4000, Timer 8000, Timer 10000,
           Sent (failedAutoExtraction href) (channel 3)]"
    if "\<forall>k<4. \<exists>e. extraction k = Inl e"
    using that by (rule extraction_always_throws)
  show "wordCount (failedAutoExtraction href) = 0"
    by (simp add: failedAutoExtraction_def)
  show "pageCount (failedAutoExtraction href) = 0"
    by (simp add: failedAutoExtraction_def)
qed

theorem auto_extraction_retries_witness:
  "attemptAutoExtraction (\<lambda>k. Inr example_content) (\<lambda>k. 3 \<le> k) (js ''https://x/y/My%20Doc.pdf'') 0 =
     [Timer 2000, Sent example_content False, Timer 4000, Sent example_content False,
      Timer 8000, Sent example_content False, Timer 10000, Sent example_content True]
   \<and> attemptAutoExtraction (\<lambda>k. Inl (Error (js ''boom''))) (\<lambda>k. True) (js ''https://x/y/My%20Doc.pdf'') 0 =
     [Timer 2000, Timer 4000, Timer 8000, Timer 10000,
      Sent (failedAutoExtraction (js ''https://x/y/My%20Doc.pdf'')) True]"
proof
  have h: "(\<forall>k<4. (\<lambda>k. Inr example_content :: error + PDFContent) k = Inr ((\<lambda>k. example_content) k))
      \<and> (\<forall>k<3. \<not> (\<lambda>k::nat. 3 \<le> k) k) \<and> (\<lambda>k::nat. 3 \<le> k) 3"
    by simp
  from auto_extraction_retries[of "\<lambda>k. Inr example_content" "\<lambda>k. 3 \<le> k"
      "js ''https://x/y/My%20Doc.pdf''" 0 "\<lambda>k. example_content"] h
  show "attemptAutoExtraction (\<lambda>k. Inr example_content) (\<lambda>k. 3 \<le> k) (js ''https://x/y/My%20Doc.pdf'') 0 =
     [Timer 2000, Sent example_content False, Timer 4000, Sent example_content False,
      Timer 8000, Sent example_content False, Timer 10000, Sent example_content True]"
    by blast
next
  have h: "\<forall>k<4. \<exists>e. (\<lambda>k. Inl (Error (js ''boom'')) :: error + PDFContent) k = Inl e"
    by simp
  from auto_extraction_retries[of "\<lambda>k. Inl (Error (js ''boom''))" "\<lambda>k. True"
      "js ''https://x/y/My%20Doc.pdf''" 0 "\<lambda>k. example_content"] h
  show "attemptAutoExtraction (\<lambda>k. Inl (Error (js ''boom''))) (\<lambda>k. True) (js ''https://x/y/My%20Doc.pdf'') 0 =
     [Timer 2000, Timer 4000, Timer 8000, Timer 10000,
      Sent (failedAutoExtraction (js ''https://x/y/My%20Doc.pdf'')) True]"
    by blast
qed

text \<open>
  C3 as stated fails when it is the send that fails in all four attempts: the run ends
  with a logged error, and no placeholder is sent.
\<close>

theorem no_placeholder_when_channel_fails:
  "attemptAutoExtraction (\<lambda>k. Inr example_content) (\<lambda>k. False) (js ''https://x/y/My%20Doc.pdf'') 0 =
     [Timer 2000, Sent example_content False, Timer 4000, Sent example_content False,
      Timer 8000, Sent example_content False, Timer 10000, Sent example_content False,
      LoggedFailure]"
  using sends_always_fail[of "\<lambda>k. Inr example_content" "\<lambda>k. example_content" "\<lambda>k. False"]
  by simp

subsection \<open>Page counts\<close>

text \<open>
  C2 as stated fails for the record the retry loop sends when the extraction rejects in
  all four attempts: its page count is 0.
\<close>

theorem placeholder_has_zero_pages:
  "attemptAutoExtraction (\<lambda>k. Inl (Error (js ''boom''))) (\<lambda>k. True) (js ''https://x/y/My%20Doc.pdf'') 0 =
     [Timer 2000, Timer 4000, Timer 8000, Timer 10000,
      Sent (failedAutoExtraction (js ''https://x/y/My%20Doc.pdf'')) True]
   \<and> pageCount (failedAutoExtraction (js ''https://x/y/My%20Doc.pdf'')) = 0"
  using extraction_always_throws[of "\<lambda>k. Inl (Error (js ''boom''))" "\<lambda>k. True"]
  by (simp add: failedAutoExtraction_def)

lemma firstPositive_pos: "0 < firstPositive xs"
  by (induction xs) auto

lemma estimatePageCount_pos: "0 < estimatePageCount D"
  by (simp add: estimatePageCount_def firstPositive_pos)

lemma viewer_pageCount: "0 < pageCount (extractFromChromePDFViewer P D)"
  using estimatePageCount_pos[of D] by (simp add: extractFromChromePDFViewer_def Let_def)

lemma library_pageCount:
  assumes "extractPDF P u = Inr r \<or> extractUsingPDFJSWithArrayBuffer P u = Inr r"
  shows "\<exists>arrayBuffer pdf. fetch P u = Response True arrayBuffer \<and>
           getDocument P arrayBuffer = Inr pdf \<and> pageCount r = numPages pdf"
proof -
  from assms have "extractPDF P u = Inr r"
    by (simp add: extractUsingPDFJSWithArrayBuffer_eq)
  from extractPDF_Inr[OF this] show ?thesis by auto
qed

lemma extractUsingPDFJS_pageCount:
  "pageCount (extractUsingPDFJS P D u) =
     (case getDocumentURL P u of Inl e \<Rightarrow> 1 | Inr pdf \<Rightarrow> numPages pdf)"
  by (simp add: extractUsingPDFJS_def extractFallbackText_def Let_def split: sum.splits)

lemma extractPDFContent_pageCount:
  "0 < pageCount (extractPDFContent P D) \<or>
   (\<exists>pdf. getDocumentURL P (location_href D) = Inr pdf \<and> numPages pdf = 0)"
  using viewer_pageCount[of P D] extractUsingPDFJS_pageCount[of P D "location_href D"]
  by (auto simp: extractPDFContent_def Let_def extractFallbackText_def split: sum.splits)

text \<open>
  C2, as the code has it. The record of the DOM-scraping path has a page count of at
  least 1 (the estimate is the first positive indicator, else 1), the raw-body fallbacks
  and the record content.ts keeps after a failed request have page count 1, and a record
  of the library path carries the page count the library reports for the document, so
  the page-resident extractor returns a page count of at least 1 unless the library
  reports a document of no pages.
\<close>

theorem pageCount_at_least_one:
  "0 < pageCount (extractFromChromePDFViewer P D)
   \<and> 0 < estimatePageCount D
   \<and> pageCount (extractFallbackText P D) = 1
   \<and> pageCount (extractFallbackText_content P D) = 1
   \<and> pageCount (failedExtraction u) = 1
   \<and> (\<forall>r. extractPDF P u = Inr r \<or> extractUsingPDFJSWithArrayBuffer P u = Inr r \<longrightarrow>
         (\<exists>arrayBuffer pdf. fetch P u = Response True arrayBuffer \<and>
            getDocument P arrayBuffer = Inr pdf \<and> pageCount r = numPages pdf))
   \<and> pageCount (extractUsingPDFJS P D u) =
         (case getDocumentURL P u of Inl e \<Rightarrow> 1 | Inr pdf \<Rightarrow> numPages pdf)
   \<and> (0 < pageCount (extractPDFContent P D) \<or>
        (\<exists>pdf. getDocumentURL P (location_href D) = Inr pdf \<and> numPages pdf = 0))"
proof (intro conjI allI impI)
  show "0 < pageCount (extractFromChromePDFViewer P D)" by (rule viewer_pageCount)
  show "0 < estimatePageCount D" by (rule estimatePageCount_pos)
  show "pageCount (extractFallbackText P D) = 1" by (simp add: extractFallbackText_def Let_def)
  show "pageCount (extractFallbackText_content P D) = 1"
    by (simp add: extractFallbackText_content_def Let_def)
  show "pageCount (failedExtraction u) = 1" by (simp add: failedExtraction_def)
  show "\<exists>arrayBuffer pdf. fetch P u = Response True arrayBuffer \<and>
            getDocument P arrayBuffer = Inr pdf \<and> pageCount r = numPages pdf"
    if "extractPDF P u = Inr r \<or> extractUsingPDFJSWithArrayBuffer P u = Inr r" for r
    using that by (rule library_pageCount)
  show "pageCount (extractUsingPDFJS P D u) =
         (case getDocumentURL P u of Inl e \<Rightarrow> 1 | Inr pdf \<Rightarrow> numPages pdf)"
    by (rule extractUsingPDFJS_pageCount)
  show "0 < pageCount (extractPDFContent P D) \<or>
        (\<exists>pdf. getDocumentURL P (location_href D) = Inr pdf \<and> numPages pdf = 0)"
    by (rule extractPDFContent_pageCount)
qed

theorem pageCount_at_least_one_witness:
  "extractPDF (example_platform (document_of three_pages)) (js ''https://x/y/My%20Doc.pdf'') =
     Inr \<lparr>title = js ''My Doc'',
          url = js ''https://x/y/My%20Doc.pdf'',
          textContent = js ''A'' @ blank_line @ js ''B B'' @ blank_line @ js ''C C C'' @ blank_line,
          wordCount = 6,
          pageCount = 3\<rparr>
   \<and> numPages (document_of three_pages) = 3
   \<and> 0 < pageCount (extractFromChromePDFViewer (example_platform (document_of three_pages))
          (example_dom (Inr []) (Inr [])))"
proof -
  let ?P = "example_platform (document_of three_pages)"
  let ?u = "js ''https://x/y/My%20Doc.pdf''"
  let ?r = "\<lparr>title = js ''My Doc'', url = ?u,
             textContent = js ''A'' @ blank_line @ js ''B B'' @ blank_line @ js ''C C C'' @ blank_line,
             wordCount = 6, pageCount = 3\<rparr>"
  note all = pageCount_at_least_one[of ?P "example_dom (Inr []) (Inr [])" ?u]
  have "extractPDF ?P ?u = Inr ?r \<or> extractUsingPDFJSWithArrayBuffer ?P ?u = Inr ?r"
    using three_pages_extract by simp
  with all obtain arrayBuffer pdf where
    a: "getDocument ?P arrayBuffer = Inr pdf" and b: "pageCount ?r = numPages pdf"
    by blast
  from a have "pdf = document_of three_pages" by (simp add: example_platform_def)
  with b have "numPages (document_of three_pages) = 3" by simp
  moreover from all
  have "0 < pageCount (extractFromChromePDFViewer ?P (example_dom (Inr []) (Inr [])))"
    by blast
  ultimately show ?thesis using three_pages_extract by simp
qed

subsection \<open>The offscreen document\<close>

lemma inv_init: "offscreen_inv offscreen_init"
  by (simp add: offscreen_inv_def offscreen_init_def)

lemma inv_ensure: "offscreen_inv s \<Longrightarrow> offscreen_inv (ensure s)"
  by (auto simp: offscreen_inv_def ensure_def Let_def split: if_splits option.splits)

lemma inv_complete: "offscreen_inv s \<Longrightarrow> offscreen_inv (complete s p ok)"
  by (auto simp: offscreen_inv_def complete_def split: if_splits)

lemma set_update_subset: "set xs \<subseteq> A \<Longrightarrow> x \<in> A \<Longrightarrow> set (xs[i := x]) \<subseteq> A"
  using set_update_subset_insert[of xs i x] by auto

lemma inv_resume: "offscreen_inv s \<Longrightarrow> offscreen_inv (resume s i)"
proof -
  assume inv: "offscreen_inv s"
  then have sub: "set (callers s) \<subseteq> {Returned, AwaitOwn 0, AwaitShared 0}"
    by (simp add: offscreen_inv_def)
  have upd: "set ((callers s)[i := Returned]) \<subseteq> {Returned, AwaitOwn 0, AwaitShared 0}"
    by (rule set_update_subset[OF sub]) simp
  show ?thesis
  proof (cases "i < length (callers s)")
    case False
    then show ?thesis using inv by (simp add: resume_def)
  next
    case True
    show ?thesis
    proof (cases "callers s ! i")
      case Returned
      then show ?thesis using inv True by (simp add: resume_def)
    next
      case (AwaitOwn p)
      show ?thesis
      proof (cases "p \<in> set (settled s)")
        case False
        then show ?thesis using inv True AwaitOwn by (simp add: resume_def)
      next
        case st: True
        then have "resume s i = s\<lparr>creating := None, callers := (callers s)[i := Returned]\<rparr>"
          using True AwaitOwn by (simp add: resume_def)
        moreover have "offscreenDocumentCreated s" "createCalls s \<noteq> 0"
          using inv st by (auto simp: offscreen_inv_def split: if_splits)
        ultimately show ?thesis
          using inv upd by (auto simp: offscreen_inv_def split: if_splits)
      qed
    next
      case (AwaitShared p)
      show ?thesis
      proof (cases "p \<in> set (settled s)")
        case False
        then show ?thesis using inv True AwaitShared by (simp add: resume_def)
      next
        case st: True
        then have "resume s i = s\<lparr>callers := (callers s)[i := Returned]\<rparr>"
          using True AwaitShared by (simp add: resume_def)
        then show ?thesis
          using inv upd by (auto simp: offscreen_inv_def split: if_splits)
      qed
    qed
  qed
qed

lemma inv_step: "offscreen_inv s \<Longrightarrow> offscreen_inv (offscreen_step s e)"
  by (cases e) (simp_all add: inv_ensure inv_complete inv_resume)

lemma offscreen_run_snoc: "offscreen_run (evs @ [e]) = offscreen_step (offscreen_run evs) e"
  by (simp add: offscreen_run_def)

lemma inv_run: "offscreen_inv (offscreen_run evs)"
  by (induction evs rule: rev_induct) (simp_all add: offscreen_run_def inv_init inv_step)

lemma createCalls_step_other: "e \<noteq> Ensure \<Longrightarrow> createCalls (offscreen_step s e) = createCalls s"
  by (cases e) (auto simp: complete_def resume_def split: caller.splits)

lemma createCalls_ensure:
  "offscreen_inv s \<Longrightarrow> createCalls (ensure s) = 1"
  by (auto simp: offscreen_inv_def ensure_def Let_def split: if_splits option.splits)

lemma createCalls_run:
  "createCalls (offscreen_run evs) = (if Ensure \<in> set evs then 1 else 0)"
proof (induction evs rule: rev_induct)
  case Nil
  show ?case by (simp add: offscreen_run_def offscreen_init_def)
next
  case (snoc e evs)
  show ?case
  proof (cases "e = Ensure")
    case True
    then show ?thesis
      using createCalls_ensure[OF inv_run[of evs]] by (simp add: offscreen_run_snoc)
  next
    case False
    then show ?thesis
      using snoc createCalls_step_other[OF False, of "offscreen_run evs"]
      by (simp add: offscreen_run_snoc)
  qed
qed

lemma created_step: "offscreenDocumentCreated s \<Longrightarrow> offscreenDocumentCreated (offscreen_step s e)"
  by (cases e) (auto simp: ensure_def complete_def resume_def split: caller.splits)

lemma created_steps:
  "offscreenDocumentCreated s \<Longrightarrow> offscreenDocumentCreated (foldl offscreen_step s evs)"
  by (induction evs arbitrary: s) (simp_all add: created_step)

lemma created_persists:
  "offscreenDocumentCreated (offscreen_run evs) \<Longrightarrow> offscreenDocumentCreated (offscreen_run (evs @ later))"
  by (simp add: offscreen_run_def created_steps)

lemma complete_marks_ready:
  assumes "Ensure \<in> set evs"
  shows "offscreenDocumentCreated (offscreen_run (evs @ [Complete 0 ok]))"
proof -
  have c: "createCalls (offscreen_run evs) = 1" using assms by (simp add: createCalls_run)
  have "offscreen_inv (offscreen_run evs)" by (rule inv_run)
  with c show ?thesis
    by (auto simp: offscreen_run_snoc offscreen_inv_def complete_def split: if_splits)
qed

lemma callers_wait_for_same:
  "c \<in> set (callers (offscreen_run evs)) \<Longrightarrow> c = Returned \<or> c = AwaitOwn 0 \<or> c = AwaitShared 0"
  using inv_run[of evs] by (auto simp: offscreen_inv_def)

lemma ensure_while_creating:
  assumes "Ensure \<in> set evs" and "\<not> offscreenDocumentCreated (offscreen_run evs)"
  shows "offscreen_run (evs @ [Ensure]) =
         (offscreen_run evs)\<lparr>callers := callers (offscreen_run evs) @ [AwaitShared 0]\<rparr>"
proof -
  have c: "createCalls (offscreen_run evs) = 1" using assms by (simp add: createCalls_run)
  have "offscreen_inv (offscreen_run evs)" by (rule inv_run)
  with c assms(2) have "creating (offscreen_run evs) = Some 0"
    by (auto simp: offscreen_inv_def split: if_splits)
  then show ?thesis using assms(2) by (simp add: offscreen_run_snoc ensure_def)
qed

lemma ensure_when_ready:
  assumes "offscreenDocumentCreated (offscreen_run evs)"
  shows "offscreen_run (evs @ [Ensure]) =
         (offscreen_run evs)\<lparr>callers := callers (offscreen_run evs) @ [Returned]\<rparr>"
  using assms by (simp add: offscreen_run_snoc ensure_def)

text \<open>
  C5. Whatever the order in which calls of \<^verbatim>\<open>setupOffscreenDocument\<close> arrive,
  platform calls finish and waiting calls go on, starting from the state with no
  document: exactly one \<^verbatim>\<open>createDocument\<close> call is issued as soon as there is one
  call, and none before; every caller that has not returned waits for the promise of that
  one call, and a call that arrives while it runs joins the wait for it; when the platform
  call finishes, with success or with an error, the flag is set; once set it stays set;
  and a call that arrives when the flag is set returns at once and issues nothing.
\<close>

theorem one_creation_call:
  "createCalls (offscreen_run evs) = (if Ensure \<in> set evs then 1 else 0)
   \<and> (\<forall>c \<in> set (callers (offscreen_run evs)). c = Returned \<or> c = AwaitOwn 0 \<or> c = AwaitShared 0)
   \<and> (Ensure \<in> set evs \<and> \<not> offscreenDocumentCreated (offscreen_run evs) \<longrightarrow>
        offscreen_run (evs @ [Ensure]) =
          (offscreen_run evs)\<lparr>callers := callers (offscreen_run evs) @ [AwaitShared 0]\<rparr>)
   \<and> (Ensure \<in> set evs \<longrightarrow> offscreenDocumentCreated (offscreen_run (evs @ [Complete 0 ok])))
   \<and> (offscreenDocumentCreated (offscreen_run evs) \<longrightarrow>
        offscreenDocumentCreated (offscreen_run (evs @ later)))
   \<and> (offscreenDocumentCreated (offscreen_run evs) \<longrightarrow>
        offscreen_run (evs @ [Ensure]) =
          (offscreen_run evs)\<lparr>callers := callers (offscreen_run evs) @ [Returned]\<rparr>)"
  using createCalls_run[of evs] callers_wait_for_same[of _ evs]
    ensure_while_creating[of evs] complete_marks_ready[of evs ok]
    created_persists[of evs later] ensure_when_ready[of evs]
  by blast

theorem one_creation_call_witness:
  "createCalls (offscreen_run [Ensure, Ensure, Ensure]) = 1
   \<and> callers (offscreen_run [Ensure, Ensure, Ensure]) = [AwaitOwn 0, AwaitShared 0, AwaitShared 0]
   \<and> offscreenDocumentCreated (offscreen_run [Ensure, Ensure, Ensure, Complete 0 False])
   \<and> offscreen_run [Ensure, Ensure, Ensure, Complete 0 False, Ensure] =
       \<lparr>offscreenDocumentCreated = True, creating = Some 0, createCalls = 1,
        running = [], settled = [0],
        callers = [AwaitOwn 0, AwaitShared 0, AwaitShared 0, Returned]\<rparr>"
proof -
  have three: "offscreen_run [Ensure, Ensure, Ensure] =
       \<lparr>offscreenDocumentCreated = False, creating = Some 0, createCalls = 1,
        running = [0], settled = [],
        callers = [AwaitOwn 0, AwaitShared 0, AwaitShared 0]\<rparr>"
    by (simp add: offscreen_run_def offscreen_init_def ensure_def Let_def)
  have four: "offscreen_run [Ensure, Ensure, Ensure, Complete 0 False] =
       \<lparr>offscreenDocumentCreated = True, creating = Some 0, createCalls = 1,
        running = [], settled = [0],
        callers = [AwaitOwn 0, AwaitShared 0, AwaitShared 0]\<rparr>"
    by (simp add: offscreen_run_def offscreen_init_def ensure_def complete_def Let_def)
  have "Ensure \<in> set [Ensure, Ensure, Ensure]" by simp
  with one_creation_call[of "[Ensure, Ensure, Ensure]" False "[]"]
  have a: "createCalls (offscreen_run [Ensure, Ensure, Ensure]) = 1"
    and b: "offscreenDocumentCreated (offscreen_run ([Ensure, Ensure, Ensure] @ [Complete 0 False]))"
    by simp_all
  have "offscreenDocumentCreated (offscreen_run [Ensure, Ensure, Ensure, Complete 0 False])"
    using b by simp
  with one_creation_call[of "[Ensure, Ensure, Ensure, Complete 0 False]" False "[]"]
  have "offscreen_run ([Ensure, Ensure, Ensure, Complete 0 False] @ [Ensure]) =
          (offscreen_run [Ensure, Ensure, Ensure, Complete 0 False])
            \<lparr>callers := callers (offscreen_run [Ensure, Ensure, Ensure, Complete 0 False]) @ [Returned]\<rparr>"
    by blast
  then have c: "offscreen_run [Ensure, Ensure, Ensure, Complete 0 False, Ensure] =
       \<lparr>offscreenDocumentCreated = True, creating = Some 0, createCalls = 1,
        running = [], settled = [0],
        callers = [AwaitOwn 0, AwaitShared 0, AwaitShared 0, Returned]\<rparr>"
    by (simp add: four)
  show ?thesis using a b c three by simp
qed

subsection \<open>Title derivation\<close>

lemma split_char_nonempty: "split_char sep s \<noteq> []"
  by (induction s) (auto split: list.splits)

lemma split_char_no_sep: "sep \<notin> set name \<Longrightarrow> split_char sep name = [name]"
  by (induction name) auto

lemma split_char_append:
  "split_char sep (xs @ sep # ys) = split_char sep xs @ split_char sep ys"
proof (induction xs)
  case Nil
  show ?case by simp
next
  case (Cons c cs)
  obtain p ps where p: "split_char sep cs = p # ps"
    using split_char_nonempty[of sep cs] by (cases "split_char sep cs") auto
  show ?case by (simp add: Cons.IH p)
qed

lemma pop_or_empty_last: "xs \<noteq> [] \<Longrightarrow> pop_or_empty xs = last xs"
  by (cases xs) (simp_all add: pop_or_empty_def)

lemma last_segment:
  "47 \<notin> set name \<Longrightarrow> pop_or_empty (split_char 47 (dir @ [47] @ name)) = name"
  by (simp add: pop_or_empty_last split_char_append split_char_no_sep)

lemma pdf_lit: "js ''.pdf'' = [46, 112, 100, 102]"
  by (simp add: js_def)

lemma no_match_across:
  assumes "take 4 (c # cs) \<noteq> [46, 112, 100, 102 :: jschar]"
  shows "take 4 (c # cs @ [46, 112, 100, 102]) \<noteq> [46, 112, 100, 102]"
proof (cases cs)
  case Nil
  then show ?thesis by simp
next
  case c1: (Cons x xs)
  show ?thesis
  proof (cases xs)
    case Nil
    then show ?thesis using c1 by simp
  next
    case c2: (Cons y ys)
    show ?thesis
    proof (cases ys)
      case Nil
      then show ?thesis using c1 c2 by simp
    next
      case (Cons z zs)
      then show ?thesis using c1 c2 assms by simp
    qed
  qed
qed

lemma replace_first_skip:
  "take (length pat) (c # s) \<noteq> pat \<Longrightarrow>
   replace_first pat rep (c # s) = c # replace_first pat rep s"
  by simp

lemma replace_first_suffix_lit:
  "\<not> includes_str stem [46, 112, 100, 102] \<Longrightarrow>
   replace_first [46, 112, 100, 102] [] (stem @ [46, 112, 100, 102]) = stem"
proof (induction stem)
  case Nil
  show ?case by simp
next
  case (Cons c cs)
  let ?pat = "[46, 112, 100, 102 :: jschar]"
  from Cons.prems have ns: "\<not> startsWith (c # cs) ?pat"
    and rest: "\<not> includes_str cs ?pat"
    by simp_all
  have len: "length ?pat = 4" by simp
  have here: "take 4 (c # cs) \<noteq> ?pat"
    using ns unfolding startsWith_def len .
  have "take 4 (c # cs @ ?pat) \<noteq> ?pat"
    using here by (rule no_match_across)
  then have "take (length ?pat) (c # (cs @ ?pat)) \<noteq> ?pat"
    unfolding len .
  then have "replace_first ?pat [] (c # (cs @ ?pat)) = c # replace_first ?pat [] (cs @ ?pat)"
    by (rule replace_first_skip)
  also have "\<dots> = c # cs"
    using Cons.IH[OF rest] by (simp only:)
  finally show ?case by (simp only: append_Cons)
qed

lemma replace_first_suffix:
  "\<not> includes_str stem (js ''.pdf'') \<Longrightarrow>
   replace_first (js ''.pdf'') [] (stem @ js ''.pdf'') = stem"
  unfolding pdf_lit by (rule replace_first_suffix_lit)

lemma title_on_parse_failure:
  "URL_pathname P u = None \<Longrightarrow>
   extractTitleFromURL P u = default_title \<and> extractTitleFromURL_offscreen P u = default_title"
  by (simp add: extractTitleFromURL_def extractTitleFromURL_offscreen_def)

lemma title_on_decode_failure:
  "URL_pathname P u = Some urlPath \<Longrightarrow>
   decodeURIComponent P (replace_first (js ''.pdf'') [] (pop_or_empty (split_char 47 urlPath))) = None \<Longrightarrow>
   extractTitleFromURL P u = default_title \<and> extractTitleFromURL_offscreen P u = default_title"
  by (simp add: extractTitleFromURL_def extractTitleFromURL_offscreen_def)

lemma default_title_nonempty: "default_title \<noteq> []"
  by (simp add: default_title_def js_def)

lemma title_nonempty: "extractTitleFromURL P u \<noteq> []"
  using default_title_nonempty
  by (simp add: extractTitleFromURL_def Let_def split: option.splits)

lemma title_of_name:
  assumes "URL_pathname P u = Some (dir @ [47] @ name)" and "47 \<notin> set name"
      and "decodeURIComponent P (replace_first (js ''.pdf'') [] name) = Some t" and "t \<noteq> []"
  shows "extractTitleFromURL P u = t \<and> extractTitleFromURL_offscreen P u = t"
  using assms(1,3,4) last_segment[OF assms(2), of dir]
  by (simp add: extractTitleFromURL_def extractTitleFromURL_offscreen_def)

lemma title_of_pdf_name:
  assumes "URL_pathname P u = Some (dir @ [47] @ stem @ js ''.pdf'')" and "47 \<notin> set stem"
      and "\<not> includes_str stem (js ''.pdf'')"
      and "decodeURIComponent P stem = Some t" and "t \<noteq> []"
  shows "extractTitleFromURL P u = t \<and> extractTitleFromURL_offscreen P u = t"
proof -
  have "47 \<notin> set (stem @ js ''.pdf'')" using assms(2) by (simp add: pdf_lit)
  moreover have "decodeURIComponent P (replace_first (js ''.pdf'') [] (stem @ js ''.pdf'')) = Some t"
    using assms(4) by (simp add: replace_first_suffix[OF assms(3)])
  ultimately show ?thesis
    using title_of_name[of P u dir "stem @ js ''.pdf''" t] assms(1,5) by simp
qed

text \<open>
  Where the code does what the specification says of the title. It never throws: when the
  locator does not parse, or the percent-decoding fails, the title is the default label,
  and the title of the page-resident extractor is never empty. For a last path segment
  that ends in \<^verbatim>\<open>.pdf\<close> and has no other \<^verbatim>\<open>.pdf\<close> in it, the title is the
  decoded segment without the suffix.
\<close>

lemma title_where_code_agrees:
  "(URL_pathname P u = None \<longrightarrow>
      extractTitleFromURL P u = default_title \<and> extractTitleFromURL_offscreen P u = default_title)
   \<and> (\<forall>urlPath. URL_pathname P u = Some urlPath \<and>
         decodeURIComponent P
           (replace_first (js ''.pdf'') [] (pop_or_empty (split_char 47 urlPath))) = None \<longrightarrow>
      extractTitleFromURL P u = default_title \<and> extractTitleFromURL_offscreen P u = default_title)
   \<and> extractTitleFromURL P u \<noteq> []
   \<and> (\<forall>dir stem t. URL_pathname P u = Some (dir @ [47] @ stem @ js ''.pdf'') \<and>
         47 \<notin> set stem \<and> \<not> includes_str stem (js ''.pdf'') \<and>
         decodeURIComponent P stem = Some t \<and> t \<noteq> [] \<longrightarrow>
      extractTitleFromURL P u = t \<and> extractTitleFromURL_offscreen P u = t)"
proof (intro conjI allI impI)
  show "extractTitleFromURL P u = default_title" if "URL_pathname P u = None"
    using title_on_parse_failure[OF that] by simp
  show "extractTitleFromURL_offscreen P u = default_title" if "URL_pathname P u = None"
    using title_on_parse_failure[OF that] by simp
  show "extractTitleFromURL P u = default_title"
    if "URL_pathname P u = Some urlPath \<and>
        decodeURIComponent P
          (replace_first (js ''.pdf'') [] (pop_or_empty (split_char 47 urlPath))) = None"
    for urlPath
    using that title_on_decode_failure[of P u urlPath] by simp
  show "extractTitleFromURL_offscreen P u = default_title"
    if "URL_pathname P u = Some urlPath \<and>
        decodeURIComponent P
          (replace_first (js ''.pdf'') [] (pop_or_empty (split_char 47 urlPath))) = None"
    for urlPath
    using that title_on_decode_failure[of P u urlPath] by simp
  show "extractTitleFromURL P u \<noteq> []" by (rule title_nonempty)
  show "extractTitleFromURL P u = t"
    if "URL_pathname P u = Some (dir @ [47] @ stem @ js ''.pdf'') \<and>
         47 \<notin> set stem \<and> \<not> includes_str stem (js ''.pdf'') \<and>
         decodeURIComponent P stem = Some t \<and> t \<noteq> []"
    for dir stem t
    using that title_of_pdf_name[of P u dir stem t] by simp
  show "extractTitleFromURL_offscreen P u = t"
    if "URL_pathname P u = Some (dir @ [47] @ stem @ js ''.pdf'') \<and>
         47 \<notin> set stem \<and> \<not> includes_str stem (js ''.pdf'') \<and>
         decodeURIComponent P stem = Some t \<and> t \<noteq> []"
    for dir stem t
    using that title_of_pdf_name[of P u dir stem t] by simp
qed

lemma decode_My_Doc: "decodeURIComponent_js (js ''My%20Doc'') = Some (js ''My Doc'')"
  by (simp add: decodeURIComponent_js_def js_def hex_octet_def hex_digit_def leading_ones_def)

text \<open>
  The scenario of the specification: \<^verbatim>\<open>https://x/y/My%20Doc.pdf\<close> gives
  \<^verbatim>\<open>My Doc\<close>, and a string that is no locator gives the default label.
\<close>

lemma title_of_My_Doc:
  "extractTitleFromURL (example_platform (document_of [])) (js ''https://x/y/My%20Doc.pdf'')
     = js ''My Doc''
   \<and> extractTitleFromURL (example_platform (document_of [])) (js ''not a locator'')
     = js ''PDF Document''"
proof -
  let ?P = "example_platform (document_of [])"
  have path: "URL_pathname ?P (js ''https://x/y/My%20Doc.pdf'') =
        Some (js ''/y'' @ [47] @ js ''My%20Doc'' @ js ''.pdf'')"
    by (simp add: example_platform_def example_pathnames_def js_def)
  have noslash: "47 \<notin> set (js ''My%20Doc'')" by (simp add: js_def)
  have nopdf: "\<not> includes_str (js ''My%20Doc'') (js ''.pdf'')"
    by (simp add: js_def startsWith_def)
  have dec: "decodeURIComponent ?P (js ''My%20Doc'') = Some (js ''My Doc'')"
    by (simp add: example_platform_def decode_My_Doc)
  have ne: "js ''My Doc'' \<noteq> []" by (simp add: js_def)
  have none: "URL_pathname ?P (js ''not a locator'') = None"
    by (simp add: example_platform_def example_pathnames_def js_def)
  have "extractTitleFromURL ?P (js ''https://x/y/My%20Doc.pdf'') = js ''My Doc''"
    using title_where_code_agrees[of ?P "js ''https://x/y/My%20Doc.pdf''"] path noslash nopdf dec ne
    by blast
  moreover have "extractTitleFromURL ?P (js ''not a locator'') = default_title"
    using title_where_code_agrees[of ?P "js ''not a locator''"] none by blast
  ultimately show ?thesis by (simp add: default_title_def)
qed

text \<open>
  C4. The title is the last path segment, percent-decoded, without a trailing
  \<^verbatim>\<open>.pdf\<close>, and the default label when that is empty. The code misses this where
  \<^verbatim>\<open>.pdf\<close> is not the end of the name: its comment says it removes the extension,
  and \<^verbatim>\<open>replace('.pdf', '')\<close> removes the first occurrence, so
  \<^verbatim>\<open>https://x/a.pdf.txt\<close> gives \<^verbatim>\<open>a.txt\<close>, where stripping a trailing suffix
  leaves \<^verbatim>\<open>a.pdf.txt\<close>.
\<close>

theorem title_removes_first_pdf:
  "extractTitleFromURL (example_platform (document_of [])) (js ''https://x/a.pdf.txt'') = js ''a.txt''
   \<and> title_spec (example_platform (document_of [])) (js ''https://x/a.pdf.txt'') = js ''a.pdf.txt''"
  by (simp add: extractTitleFromURL_def title_spec_def example_platform_def example_pathnames_def
      js_def pop_or_empty_def decodeURIComponent_js_def strip_pdf_suffix_def)

text \<open>
  The variant of offscreen.ts and of the fallback extractor of content.ts has no default
  for an empty title: a locator that ends in a slash gives the empty string.
\<close>

lemma offscreen_title_may_be_empty:
  "extractTitleFromURL_offscreen (example_platform (document_of [])) (js ''https://x/y/'') = []"
  by (simp add: extractTitleFromURL_offscreen_def example_platform_def example_pathnames_def
      js_def pop_or_empty_def decodeURIComponent_js_def)

end
